theory Spec2Isabelle
  imports Complex_Main "HOL-Library.Multiset"
begin

section \<open>VIBE vectors\<close>

text \<open>
  A VIBE vector is a numpy array of shape (5,), in the fixed order
  Valence, Arousal, Dominance, Complexity, Coherence. Python floats are read as real
  numbers: the rounding of IEEE arithmetic is not part of this model.
\<close>

datatype vec5 = Vec5 real real real real real

fun vmap :: "(real \<Rightarrow> real) \<Rightarrow> vec5 \<Rightarrow> vec5" where
  "vmap f (Vec5 a b c d e) = Vec5 (f a) (f b) (f c) (f d) (f e)"

fun vmap2 :: "(real \<Rightarrow> real \<Rightarrow> real) \<Rightarrow> vec5 \<Rightarrow> vec5 \<Rightarrow> vec5" where
  "vmap2 f (Vec5 a b c d e) (Vec5 a' b' c' d' e') =
     Vec5 (f a a') (f b b') (f c c') (f d d') (f e e')"

fun vall :: "(real \<Rightarrow> bool) \<Rightarrow> vec5 \<Rightarrow> bool" where
  "vall P (Vec5 a b c d e) = (P a \<and> P b \<and> P c \<and> P d \<and> P e)"

fun tolist :: "vec5 \<Rightarrow> real list" where
  "tolist (Vec5 a b c d e) = [a, b, c, d, e]"

text \<open>\<open>values[i]\<close> and \<open>result[i] = x\<close> for the indices 0..4 of the array.\<close>

fun vnth :: "vec5 \<Rightarrow> nat \<Rightarrow> real" where
  "vnth (Vec5 a b c d e) i =
     (if i = 0 then a else if i = 1 then b else if i = 2 then c
      else if i = 3 then d else if i = 4 then e else undefined)"

fun vupd :: "vec5 \<Rightarrow> nat \<Rightarrow> real \<Rightarrow> vec5" where
  "vupd (Vec5 a b c d e) i x =
     (if i = 0 then Vec5 x b c d e else if i = 1 then Vec5 a x c d e
      else if i = 2 then Vec5 a b x d e else if i = 3 then Vec5 a b c x e
      else if i = 4 then Vec5 a b c d x else undefined)"

text \<open>Elementwise numpy arithmetic: \<open>a - b\<close>, \<open>a + b\<close>, \<open>a * b\<close>, \<open>a * k\<close>.\<close>

definition vsub :: "vec5 \<Rightarrow> vec5 \<Rightarrow> vec5" where
  "vsub = vmap2 (\<lambda>x y. x - y)"

definition vadd :: "vec5 \<Rightarrow> vec5 \<Rightarrow> vec5" where
  "vadd = vmap2 (\<lambda>x y. x + y)"

definition vmul :: "vec5 \<Rightarrow> vec5 \<Rightarrow> vec5" where
  "vmul = vmap2 (\<lambda>x y. x * y)"

definition vscale :: "vec5 \<Rightarrow> real \<Rightarrow> vec5" where
  "vscale v k = vmap (\<lambda>x. x * k) v"

text \<open>\<open>np.clip(x, lo, hi)\<close> is \<open>minimum(hi, maximum(x, lo))\<close>, elementwise.\<close>

definition clip :: "real \<Rightarrow> real \<Rightarrow> real \<Rightarrow> real" where
  "clip x lo hi = min hi (max x lo)"

definition vclip :: "vec5 \<Rightarrow> real \<Rightarrow> real \<Rightarrow> vec5" where
  "vclip v lo hi = vmap (\<lambda>x. clip x lo hi) v"

text \<open>Componentwise membership in the unit interval.\<close>

definition in_unit :: "vec5 \<Rightarrow> bool" where
  "in_unit v = vall (\<lambda>x. 0 \<le> x \<and> x \<le> 1) v"


section \<open>The blender (blender.py)\<close>

record vibe_blender =
  baseline :: vec5
  current :: vec5
  hold_until :: real
  last_baseline_update :: real
  dwell_until :: real

definition DEFAULT_INFLUENCE :: real where "DEFAULT_INFLUENCE = 0.22"
definition BASELINE_INFLUENCE :: real where "BASELINE_INFLUENCE = 0.70"
definition HOLD_SECONDS :: real where "HOLD_SECONDS = 0.8"
definition DECAY_RATE :: real where "DECAY_RATE = 0.06"
definition DWELL_SECONDS :: real where "DWELL_SECONDS = 1.2"

text \<open>
  Every reading of \<open>time.time()\<close> is a parameter of the operation that makes it.
  \<open>VIBEBlender.__init__\<close> reads the clock once, for \<open>last_baseline_update\<close>.
\<close>

definition blender_init :: "real \<Rightarrow> vibe_blender" where
  "blender_init now =
     \<lparr> baseline = Vec5 0.5 0.5 0.5 0.5 0.8,
       current = Vec5 0.5 0.5 0.5 0.5 0.8,
       hold_until = 0.0,
       last_baseline_update = now,
       dwell_until = 0.0 \<rparr>"

text \<open>
  \<open>apply_burst(burst, influence=None)\<close>: \<open>current\<close> becomes the burst, the two plateau
  timers are set from the clock, and the baseline moves by \<open>alpha\<close> toward the new
  \<open>current\<close> and is clipped. \<open>influence\<close> is \<open>None\<close> when the caller leaves it out.
\<close>

definition apply_burst :: "vibe_blender \<Rightarrow> real \<Rightarrow> vec5 \<Rightarrow> real option \<Rightarrow> vibe_blender" where
  "apply_burst s now burst influence =
     (let s1 = s\<lparr>current := burst\<rparr>;
          s2 = s1\<lparr>dwell_until := now + DWELL_SECONDS\<rparr>;
          s3 = s2\<lparr>hold_until := dwell_until s2 + HOLD_SECONDS\<rparr>;
          alpha = (case influence of Some a \<Rightarrow> a | None \<Rightarrow> DEFAULT_INFLUENCE);
          s4 = s3\<lparr>baseline := vadd (baseline s3) (vscale (vsub (current s3) (baseline s3)) alpha)\<rparr>
      in s4\<lparr>baseline := vclip (baseline s4) 0 1\<rparr>)"

text \<open>\<open>apply_baseline\<close> reads the clock a second time after the burst.\<close>

definition apply_baseline :: "vibe_blender \<Rightarrow> real \<Rightarrow> real \<Rightarrow> vec5 \<Rightarrow> vibe_blender" where
  "apply_baseline s now now' new_baseline =
     (apply_burst s now new_baseline (Some BASELINE_INFLUENCE))\<lparr>last_baseline_update := now'\<rparr>"

text \<open>\<open>tick()\<close> returns the list it renders together with the state it leaves.\<close>

definition tick :: "vibe_blender \<Rightarrow> real \<Rightarrow> real list \<times> vibe_blender" where
  "tick s now =
     (if now < hold_until s then (tolist (current s), s)
      else
        (let s' = s\<lparr>current := vadd (current s) (vscale (vsub (baseline s) (current s)) DECAY_RATE)\<rparr>
         in (tolist (current s'), s')))"

text \<open>A run of ticks, each with its own clock reading; the rendered lists are dropped.\<close>

fun ticks :: "vibe_blender \<Rightarrow> real list \<Rightarrow> vibe_blender" where
  "ticks s [] = s"
| "ticks s (now # nows) = ticks (snd (tick s now)) nows"

text \<open>The calls a client can make on a blender, each with the clock readings it takes.\<close>

datatype call =
    ApplyBurst real vec5 "real option"
  | ApplyBaseline real real vec5
  | Tick real

fun exec :: "vibe_blender \<Rightarrow> call \<Rightarrow> vibe_blender" where
  "exec s (ApplyBurst now v influence) = apply_burst s now v influence"
| "exec s (ApplyBaseline now now' v) = apply_baseline s now now' v"
| "exec s (Tick now) = snd (tick s now)"

fun run :: "vibe_blender \<Rightarrow> call list \<Rightarrow> vibe_blender" where
  "run s [] = s"
| "run s (c # cs) = run (exec s c) cs"

text \<open>The vector a call hands to the blender, if any, lies in the unit cube.\<close>

fun call_in_unit :: "call \<Rightarrow> bool" where
  "call_in_unit (ApplyBurst now v influence) = in_unit v"
| "call_in_unit (ApplyBaseline now now' v) = in_unit v"
| "call_in_unit (Tick now) = True"


section \<open>Double-precision arithmetic (numpy float64)\<close>

text \<open>
  The arrays of the blender hold IEEE 754 binary64 numbers, and every \<open>+\<close>, \<open>-\<close> and \<open>*\<close> on
  them returns the double nearest to the exact result, a tie going to the even significand.
  \<open>rne y\<close> is the integer nearest to \<open>y\<close>, ties to even; \<open>expo x\<close> is the binary exponent of
  \<open>x\<close>; \<open>quantum x\<close> is the distance between neighbouring doubles at the magnitude of \<open>x\<close>,
  \<open>2 ^ (e - 52)\<close> for a normal number of exponent \<open>e\<close> and \<open>2 ^ - 1074\<close> below \<open>2 ^ - 1022\<close>;
  \<open>fl x\<close> is the double nearest to \<open>x\<close>. The exponent has no upper bound here: the blender
  computes with magnitudes far below the largest double, and an overflow to infinity is
  left out. A decimal literal of the source, such as \<open>0.06\<close>, is the double \<open>fl 0.06\<close>.
\<close>

definition rne :: "real \<Rightarrow> int" where
  "rne y =
     (let f = \<lfloor>y\<rfloor>; d = y - of_int f
      in if d < 1/2 then f else if 1/2 < d then f + 1 else if even f then f else f + 1)"

definition pow2 :: "int \<Rightarrow> real" where
  "pow2 k = 2 powr of_int k"

definition expo :: "real \<Rightarrow> int" where
  "expo x = \<lfloor>log 2 \<bar>x\<bar>\<rfloor>"

definition quantum :: "real \<Rightarrow> real" where
  "quantum x = pow2 (max (expo x) (- 1022) - 52)"

definition fl :: "real \<Rightarrow> real" where
  "fl x = (if x = 0 then 0 else quantum x * of_int (rne (x / quantum x)))"

definition is_double :: "real \<Rightarrow> bool" where
  "is_double x = (fl x = x)"

text \<open>The three operations on doubles, and numpy's elementwise \<open>a - b\<close>, \<open>a + b\<close>, \<open>a * k\<close>.\<close>

definition fadd :: "real \<Rightarrow> real \<Rightarrow> real" where
  "fadd x y = fl (x + y)"

definition fsub :: "real \<Rightarrow> real \<Rightarrow> real" where
  "fsub x y = fl (x - y)"

definition fmul :: "real \<Rightarrow> real \<Rightarrow> real" where
  "fmul x y = fl (x * y)"

definition vfsub :: "vec5 \<Rightarrow> vec5 \<Rightarrow> vec5" where
  "vfsub = vmap2 fsub"

definition vfadd :: "vec5 \<Rightarrow> vec5 \<Rightarrow> vec5" where
  "vfadd = vmap2 fadd"

definition vfscale :: "vec5 \<Rightarrow> real \<Rightarrow> vec5" where
  "vfscale v k = vmap (\<lambda>x. fmul x k) v"


section \<open>The blender in double precision (blender.py)\<close>

text \<open>
  The same three methods with their arithmetic as the machine does it: the class constants
  are the doubles of their literals, and \<open>now + DWELL_SECONDS\<close>,
  \<open>dwell_until + HOLD_SECONDS\<close>, \<open>(current - baseline) * alpha\<close>, \<open>baseline += ...\<close>,
  \<open>(baseline - current) * DECAY_RATE\<close> and \<open>current += ...\<close> each round their result.
  \<open>np.clip\<close> and the comparison \<open>now < hold_until\<close> are exact. The vectors and the clock
  readings handed in are the doubles the caller holds.
\<close>

definition blender_init64 :: "real \<Rightarrow> vibe_blender" where
  "blender_init64 now =
     \<lparr> baseline = Vec5 0.5 0.5 0.5 0.5 (fl 0.8),
       current = Vec5 0.5 0.5 0.5 0.5 (fl 0.8),
       hold_until = 0.0,
       last_baseline_update = now,
       dwell_until = 0.0 \<rparr>"

definition apply_burst64 :: "vibe_blender \<Rightarrow> real \<Rightarrow> vec5 \<Rightarrow> real option \<Rightarrow> vibe_blender" where
  "apply_burst64 s now burst influence =
     (let s1 = s\<lparr>current := burst\<rparr>;
          s2 = s1\<lparr>dwell_until := fadd now (fl DWELL_SECONDS)\<rparr>;
          s3 = s2\<lparr>hold_until := fadd (dwell_until s2) (fl HOLD_SECONDS)\<rparr>;
          alpha = (case influence of Some a \<Rightarrow> a | None \<Rightarrow> fl DEFAULT_INFLUENCE);
          s4 = s3\<lparr>baseline := vfadd (baseline s3) (vfscale (vfsub (current s3) (baseline s3)) alpha)\<rparr>
      in s4\<lparr>baseline := vclip (baseline s4) 0 1\<rparr>)"

definition tick64 :: "vibe_blender \<Rightarrow> real \<Rightarrow> real list \<times> vibe_blender" where
  "tick64 s now =
     (if now < hold_until s then (tolist (current s), s)
      else
        (let s' = s\<lparr>current := vfadd (current s)
                     (vfscale (vfsub (baseline s) (current s)) (fl DECAY_RATE))\<rparr>
         in (tolist (current s'), s')))"

fun ticks64 :: "vibe_blender \<Rightarrow> real list \<Rightarrow> vibe_blender" where
  "ticks64 s [] = s"
| "ticks64 s (now # nows) = ticks64 (snd (tick64 s now)) nows"


section \<open>Settle detection (server.py)\<close>

text \<open>\<open>_has_settled_to_baseline(threshold=0.02)\<close>: \<open>np.all(np.abs(current - baseline) < threshold)\<close>.\<close>

definition has_settled_to_baseline :: "vibe_blender \<Rightarrow> real \<Rightarrow> bool" where
  "has_settled_to_baseline b threshold =
     vall (\<lambda>x. x < threshold) (vmap abs (vsub (current b) (baseline b)))"

definition settled :: "vibe_blender \<Rightarrow> bool" where
  "settled b = has_settled_to_baseline b 0.02"



section \<open>The amplifier (amplifier.py)\<close>

datatype error = ValueError | ZeroDivisionError | HTTPException nat

definition MAX_PASSION :: real where "MAX_PASSION = 3.5"

text \<open>
  The exemplar library \<open>cinematic_space\<close> is loaded from a dataset at construction; it is a
  parameter here, one row of five floats per exemplar.
\<close>

definition dimension_weights :: vec5 where
  "dimension_weights = Vec5 3.0 3.0 1.2 0.3 0.3"

text \<open>\<open>_radial_amplify\<close>: the loop \<open>for i in range(3)\<close> over a copy of \<open>values\<close>.\<close>

definition radial_amplify :: "vec5 \<Rightarrow> real \<Rightarrow> vec5" where
  "radial_amplify values passion =
     fold (\<lambda>i result.
             (let delta = vnth values i - 0.5;
                  magnitude = \<bar>delta\<bar>;
                  gain = 1 + passion * magnitude
              in vupd result i (0.5 + delta * gain)))
          [0, 1, 2] values"

definition amplify_passion :: "vec5 \<Rightarrow> real \<Rightarrow> vec5" where
  "amplify_passion values passion =
     (let passion' = max 0.0 (min MAX_PASSION passion);
          amplified = radial_amplify values passion'
      in vclip amplified 0.0 1.0)"

text \<open>\<open>np.linalg.norm\<close> of one row.\<close>

fun vsum :: "vec5 \<Rightarrow> real" where
  "vsum (Vec5 a b c d e) = a + b + c + d + e"

definition vnorm :: "vec5 \<Rightarrow> real" where
  "vnorm v = sqrt (vsum (vmul v v))"

definition distances :: "vec5 list \<Rightarrow> vec5 \<Rightarrow> real list" where
  "distances cinematic_space vad_cc =
     map (\<lambda>row. vnorm (vmul (vsub row vad_cc) dimension_weights)) cinematic_space"

text \<open>
  \<open>np.argsort\<close>: the indices in ascending order of their value. Equal values are kept in
  index order here; numpy's default sort leaves the order of ties open.
\<close>

definition argsort :: "real list \<Rightarrow> nat list" where
  "argsort ds = map snd (sort_key fst (zip ds [0..<length ds]))"

text \<open>The slice \<open>xs[:k]\<close> for a Python int \<open>k\<close>: a negative \<open>k\<close> counts from the end.\<close>

definition slice_to :: "int \<Rightarrow> 'a list \<Rightarrow> 'a list" where
  "slice_to k xs = (if 0 \<le> k then take (nat k) xs else take (length xs - nat (- k)) xs)"

definition vzero :: vec5 where
  "vzero = Vec5 0 0 0 0 0"

text \<open>\<open>np.average(rows, axis=0, weights=wgt)\<close>: the weighted sum of the rows over the sum of
  the weights.\<close>

definition np_average :: "vec5 list \<Rightarrow> real list \<Rightarrow> vec5" where
  "np_average rows wgt =
     vmap (\<lambda>x. x / sum_list wgt) (foldr vadd (map2 vscale rows wgt) vzero)"

text \<open>
  \<open>_nearest_exemplar\<close>. With an empty library the subtraction of shapes (0,) and (5,)
  raises; with no index selected \<open>np.average\<close> finds weights that sum to zero and raises.
\<close>

definition nearest_exemplar :: "vec5 list \<Rightarrow> vec5 \<Rightarrow> int \<Rightarrow> error + vec5" where
  "nearest_exemplar cinematic_space vad_cc k =
     (if cinematic_space = [] then Inl ValueError
      else
        (let ds = distances cinematic_space vad_cc;
             nearest_idx = slice_to k (argsort ds)
         in if k = 1 then Inr (cinematic_space ! hd nearest_idx)
            else if nearest_idx = [] then Inl ZeroDivisionError
            else
              (let weights = map (\<lambda>i. 1.0 / (ds ! i + 0.01)) nearest_idx;
                   weights' = map (\<lambda>w. w / sum_list weights) weights
               in Inr (np_average (map (\<lambda>i. cinematic_space ! i) nearest_idx) weights'))))"

definition snap_drama :: "vec5 list \<Rightarrow> vec5 \<Rightarrow> real \<Rightarrow> int \<Rightarrow> error + vec5" where
  "snap_drama cinematic_space values drama k =
     (let drama' = max 0.0 (min 1.0 drama)
      in if drama' \<le> 0 then Inr values
         else
           (case nearest_exemplar cinematic_space values k of
              Inl e \<Rightarrow> Inl e
            | Inr target \<Rightarrow>
                (let snapped = vadd values (vscale (vsub target values) drama')
                 in Inr (vclip snapped 0.0 1.0))))"


section \<open>The slow estimator (ollama_anchor.py)\<close>

text \<open>
  What \<open>ollama.generate\<close> does is outside the repository: it either raises or answers with
  a text. \<open>Raised\<close> also stands for an exception anywhere else on the way to the estimator:
  every handler on that path returns \<open>None\<close>.
\<close>

datatype llm_reply = Raised | Reply string

definition is_digit :: "char \<Rightarrow> bool" where
  "is_digit c = (c \<in> set ''0123456789'')"

definition is_zero :: "char \<Rightarrow> bool" where
  "is_zero c = (c = CHR ''0'')"

text \<open>The text starts with a point followed by a character of the class \<open>P\<close>.\<close>

definition dot_then :: "(char \<Rightarrow> bool) \<Rightarrow> string \<Rightarrow> bool" where
  "dot_then P cs = (case cs of d # x # _ \<Rightarrow> d = CHR ''.'' \<and> P x | _ \<Rightarrow> False)"

text \<open>
  \<open>re.findall(r"0\.\d+|1\.0+|[01]", output)\<close>: at each position the alternatives are tried
  in their order, a repetition takes as many characters as it can, and the scan goes on
  behind the match, or one character further when nothing matches. Strings are ASCII. The
  white space that \<open>strip\<close> removes from the answer first holds no match.
\<close>

function findall :: "string \<Rightarrow> string list" where
  "findall [] = []"
| "findall (c # cs) =
     (if c = CHR ''0'' \<and> dot_then is_digit cs then
        (c # CHR ''.'' # takeWhile is_digit (tl cs)) # findall (dropWhile is_digit (tl cs))
      else if c = CHR ''1'' \<and> dot_then is_zero cs then
        (c # CHR ''.'' # takeWhile is_zero (tl cs)) # findall (dropWhile is_zero (tl cs))
      else if c = CHR ''0'' \<or> c = CHR ''1'' then [c] # findall cs
      else findall cs)"
  by pat_completeness auto
termination
proof (relation "measure length")
  fix c :: char and cs :: string
  have "length (dropWhile is_digit (tl cs)) \<le> length (tl cs)"
    by (rule length_dropWhile_le)
  then show "(dropWhile is_digit (tl cs), c # cs) \<in> measure length"
    by simp
  have "length (dropWhile is_zero (tl cs)) \<le> length (tl cs)"
    by (rule length_dropWhile_le)
  then show "(dropWhile is_zero (tl cs), c # cs) \<in> measure length"
    by simp
qed simp_all

text \<open>
  \<open>float(n)\<close> on a token of that pattern: one digit, then possibly a point and the digits
  of the fraction.
\<close>

definition digit_val :: "char \<Rightarrow> real" where
  "digit_val c = real (of_char c - 48)"

fun frac_val :: "string \<Rightarrow> real" where
  "frac_val [] = 0"
| "frac_val (d # ds) = (digit_val d + frac_val ds) / 10"

definition py_float :: "string \<Rightarrow> real" where
  "py_float n = (case n of [] \<Rightarrow> 0 | c # rest \<Rightarrow> digit_val c + frac_val (drop 1 rest))"

text \<open>
  \<open>OllamaAnchor.extract_baseline\<close>, with \<open>self.available\<close> and the estimator's reply as
  parameters. The list it returns has five elements whenever it is not \<open>None\<close>.
\<close>

definition extract_baseline :: "bool \<Rightarrow> llm_reply \<Rightarrow> vec5 option" where
  "extract_baseline available reply =
     (if \<not> available then None
      else
        (case reply of
           Raised \<Rightarrow> None
         | Reply output \<Rightarrow>
             (let numbers = findall output;
                  baseline = map py_float (take 5 numbers)
              in if length baseline = 5 \<and> list_all (\<lambda>v. 0.0 \<le> v \<and> v \<le> 1.0) baseline
                 then (case baseline of
                         [a, b, c, d, e] \<Rightarrow> Some (Vec5 a b c d e)
                       | _ \<Rightarrow> None)
                 else None)))"


section \<open>The coordinator (server.py)\<close>

definition PASSION :: real where "PASSION = 2.25"
definition DRAMA :: real where "DRAMA = 0.65"
definition BASELINE_WINDOW_WORDS :: nat where "BASELINE_WINDOW_WORDS = 100"

text \<open>
  The requests handed to the single-worker executor and not yet resolved, oldest first:
  the worker runs them one at a time in this order. Each carries its context text.
\<close>

datatype job = Warmup string | Trigger string

record server =
  blender :: vibe_blender
  context_buffer :: "string list"
  last_vibe :: "real list"
  transcript_count :: nat
  slow_pending :: bool
  slow_in_flight :: bool
  executor_queue :: "job list"

text \<open>\<open>deque(maxlen=200).extend(words)\<close>: the oldest words fall out on overflow.\<close>

definition deque_extend :: "string list \<Rightarrow> string list \<Rightarrow> string list" where
  "deque_extend buf words = (let xs = buf @ words in drop (length xs - 200) xs)"

fun join_words :: "string list \<Rightarrow> string" where
  "join_words [] = []"
| "join_words [w] = w"
| "join_words (w # ws) = w @ '' '' @ join_words ws"

definition get_recent_context_text :: "string list \<Rightarrow> nat \<Rightarrow> string" where
  "get_recent_context_text buf max_words =
     (if buf = [] then []
      else (let window_words = (if max_words = 0 then buf else drop (length buf - max_words) buf)
            in join_words window_words))"

text \<open>
  The state \<open>startup\<close> leaves: the components are built, and the warm-up task has asked for
  its baseline before the decay loop runs for the first time.
\<close>

definition server_start :: "real \<Rightarrow> server" where
  "server_start now =
     \<lparr> blender = blender_init now,
       context_buffer = [],
       last_vibe = [0.5, 0.5, 0.5, 0.5, 0.8],
       transcript_count = 0,
       slow_pending = False,
       slow_in_flight = False,
       executor_queue = [Warmup ''Say hello to Reachy.''] \<rparr>"

text \<open>
  One iteration of \<open>decay_loop\<close> up to its \<open>sleep\<close>. Creating the task is adding its
  request to the queue; sending to the device changes nothing here.
\<close>

definition decay_iter :: "server \<Rightarrow> real \<Rightarrow> server" where
  "decay_iter s now =
     (let s1 = s\<lparr>blender := snd (tick (blender s) now)\<rparr>
      in if slow_pending s1 \<and> \<not> slow_in_flight s1 \<and> settled (blender s1) then
           (let context_text = get_recent_context_text (context_buffer s1) BASELINE_WINDOW_WORDS
            in if context_text \<noteq> [] then
                 (let s2 = s1\<lparr>slow_in_flight := True\<rparr>
                  in s2\<lparr>executor_queue := executor_queue s2 @ [Trigger context_text]\<rparr>)
               else s1)
         else s1)"

text \<open>
  \<open>_trigger_slow_baseline\<close> from the point where its request has resolved to its end;
  \<open>available\<close> is the estimator's flag, \<open>reply\<close> what the estimator did.
\<close>

definition trigger_slow_baseline :: "server \<Rightarrow> bool \<Rightarrow> llm_reply \<Rightarrow> real \<Rightarrow> real \<Rightarrow> server" where
  "trigger_slow_baseline s available reply now now' =
     (let s1 = (case extract_baseline available reply of
                  Some ollama_vibe \<Rightarrow>
                    (let s' = s\<lparr>blender := apply_baseline (blender s) now now' ollama_vibe\<rparr>
                     in s'\<lparr>last_vibe := tolist (current (blender s'))\<rparr>)
                | None \<Rightarrow> s);
          s2 = s1\<lparr>slow_pending := False\<rparr>
      in s2\<lparr>slow_in_flight := False\<rparr>)"

text \<open>\<open>_startup_warm_baseline\<close> from the same point: it touches no flag.\<close>

definition startup_warm_baseline :: "server \<Rightarrow> bool \<Rightarrow> llm_reply \<Rightarrow> real \<Rightarrow> real \<Rightarrow> server" where
  "startup_warm_baseline s available reply now now' =
     (case extract_baseline available reply of
        Some ollama_vibe \<Rightarrow>
          (let s' = s\<lparr>blender := apply_baseline (blender s) now now' ollama_vibe\<rparr>
           in s'\<lparr>last_vibe := tolist (current (blender s'))\<rparr>)
      | None \<Rightarrow> s)"

text \<open>
  The loop over the sentences of \<open>receive_transcript\<close>. Each sentence comes as the clock
  reading of its burst and the reading \<open>fast_extractor.extract\<close> gave for it. An exception
  of the amplifier leaves the loop, and what was done before it stays done: the result is
  the state reached and the exception, if any.
\<close>

fun burst_sentences ::
  "vec5 list \<Rightarrow> real \<Rightarrow> server \<Rightarrow> (real \<times> vec5) list \<Rightarrow> server \<times> error option" where
  "burst_sentences cinematic_space influence_used s [] = (s, None)"
| "burst_sentences cinematic_space influence_used s ((now, natural) # rest) =
     (let post_passion = amplify_passion natural PASSION
      in case snap_drama cinematic_space post_passion DRAMA 1 of
           Inl e \<Rightarrow> (s, Some e)
         | Inr post_drama \<Rightarrow>
             (let s1 = s\<lparr>blender := apply_burst (blender s) now post_drama (Some influence_used)\<rparr>;
                  s2 = s1\<lparr>last_vibe := tolist (current (blender s1))\<rparr>
              in burst_sentences cinematic_space influence_used s2 rest))"

text \<open>
  \<open>receive_transcript\<close> once start-up has built the components: \<open>words\<close> is
  \<open>text.split()\<close>, empty exactly when the stripped text is. A rejected payload changes
  nothing.
\<close>

definition receive_transcript ::
  "vec5 list \<Rightarrow> server \<Rightarrow> string list \<Rightarrow> real option \<Rightarrow> (real \<times> vec5) list
     \<Rightarrow> server \<times> error option" where
  "receive_transcript cinematic_space s words influence sentences =
     (if words = [] then (s, Some (HTTPException 400))
      else if influence \<noteq> None \<and> \<not> (0 \<le> the influence \<and> the influence \<le> 1)
        then (s, Some (HTTPException 400))
      else
        (let s1 = s\<lparr>context_buffer := deque_extend (context_buffer s) words\<rparr>;
             s2 = s1\<lparr>transcript_count := transcript_count s1 + 1\<rparr>;
             influence_used = (case influence of Some a \<Rightarrow> a | None \<Rightarrow> DEFAULT_INFLUENCE)
         in case burst_sentences cinematic_space influence_used s2 sentences of
              (s3, Some e) \<Rightarrow> (s3, Some e)
            | (s3, None) \<Rightarrow> (s3\<lparr>slow_pending := True\<rparr>, None)))"

text \<open>
  The event loop runs one of these at a time, each to its next suspension point: an
  iteration of the decay loop, a transcript request, or the resumption of the task whose
  request the executor has just resolved (the oldest one).
\<close>

datatype event =
    DecayIter real
  | Transcript "string list" "real option" "(real \<times> vec5) list"
  | JobDone llm_reply real real

fun step :: "vec5 list \<Rightarrow> bool \<Rightarrow> server \<Rightarrow> event \<Rightarrow> server" where
  "step cinematic_space available s (DecayIter now) = decay_iter s now"
| "step cinematic_space available s (Transcript words influence sentences) =
     fst (receive_transcript cinematic_space s words influence sentences)"
| "step cinematic_space available s (JobDone reply now now') =
     (case executor_queue s of
        [] \<Rightarrow> s
      | Warmup context_text # q \<Rightarrow>
          startup_warm_baseline (s\<lparr>executor_queue := q\<rparr>) available reply now now'
      | Trigger context_text # q \<Rightarrow>
          trigger_slow_baseline (s\<lparr>executor_queue := q\<rparr>) available reply now now')"

fun run_server :: "vec5 list \<Rightarrow> bool \<Rightarrow> server \<Rightarrow> event list \<Rightarrow> server" where
  "run_server cinematic_space available s [] = s"
| "run_server cinematic_space available s (ev # evs) =
     run_server cinematic_space available (step cinematic_space available s ev) evs"

text \<open>
  The requests to the slow estimator that are in flight: all those handed to the executor
  and not yet resolved, the warm-up among them. The ones among them that the decay loop
  dispatched. Whether an iteration of the decay loop at \<open>now\<close> dispatches one.
\<close>

fun is_trigger :: "job \<Rightarrow> bool" where
  "is_trigger (Trigger context_text) = True"
| "is_trigger (Warmup context_text) = False"

definition in_flight_requests :: "server \<Rightarrow> job list" where
  "in_flight_requests s = executor_queue s"

definition dispatched_requests :: "server \<Rightarrow> job list" where
  "dispatched_requests s = filter is_trigger (executor_queue s)"

definition dispatches :: "server \<Rightarrow> real \<Rightarrow> bool" where
  "dispatches s now = (executor_queue (decay_iter s now) \<noteq> executor_queue s)"


section \<open>Vocabulary of the properties\<close>

text \<open>A property of three vectors that holds in each dimension.\<close>

fun vall3 :: "(real \<Rightarrow> real \<Rightarrow> real \<Rightarrow> bool) \<Rightarrow> vec5 \<Rightarrow> vec5 \<Rightarrow> vec5 \<Rightarrow> bool" where
  "vall3 P (Vec5 a b c d e) (Vec5 a' b' c' d' e') (Vec5 a'' b'' c'' d'' e'') =
     (P a a' a'' \<and> P b b' b'' \<and> P c c' c'' \<and> P d d' d'' \<and> P e e' e'')"

text \<open>
  \<open>toward b c c'\<close>: the value \<open>c'\<close> lies between \<open>c\<close> and \<open>b\<close>, ends included, so it is on
  the side of \<open>b\<close> where \<open>c\<close> is and no farther from \<open>b\<close> than \<open>c\<close>.
\<close>

definition toward :: "real \<Rightarrow> real \<Rightarrow> real \<Rightarrow> bool" where
  "toward b c c' = (min c b \<le> c' \<and> c' \<le> max c b \<and> \<bar>c' - b\<bar> \<le> \<bar>c - b\<bar>)"


text \<open>
  The words of the specification for \<open>snap_toward_exemplar\<close>. The weighted Euclidean
  distance scales each difference by its weight before squaring, as the code does; the
  \<open>k\<close> nearest exemplars are the first \<open>k\<close> in ascending order of that distance; the
  inverse-distance weights are \<open>1 / (distance + 0.01)\<close>, divided by their sum.
\<close>

fun weighted_distance :: "vec5 \<Rightarrow> vec5 \<Rightarrow> real" where
  "weighted_distance (Vec5 v0 v1 v2 v3 v4) (Vec5 e0 e1 e2 e3 e4) =
     sqrt ((3.0 * (e0 - v0))\<^sup>2 + (3.0 * (e1 - v1))\<^sup>2 + (1.2 * (e2 - v2))\<^sup>2
           + (0.3 * (e3 - v3))\<^sup>2 + (0.3 * (e4 - v4))\<^sup>2)"

definition k_nearest :: "vec5 list \<Rightarrow> vec5 \<Rightarrow> nat \<Rightarrow> vec5 list" where
  "k_nearest exemplars v k = take k (sort_key (weighted_distance v) exemplars)"

definition inverse_distance_weights :: "vec5 \<Rightarrow> vec5 list \<Rightarrow> real list" where
  "inverse_distance_weights v es =
     (let ws = map (\<lambda>e. 1 / (weighted_distance v e + 0.01)) es
      in map (\<lambda>w. w / sum_list ws) ws)"

definition weighted_sum :: "vec5 list \<Rightarrow> real list \<Rightarrow> vec5" where
  "weighted_sum es ws = foldr vadd (map2 vscale es ws) vzero"

definition snap_target :: "vec5 list \<Rightarrow> vec5 \<Rightarrow> nat \<Rightarrow> vec5" where
  "snap_target exemplars v k =
     (if k = 1 then hd (k_nearest exemplars v 1)
      else weighted_sum (k_nearest exemplars v k)
             (inverse_distance_weights v (k_nearest exemplars v k)))"

definition snap_toward_exemplar :: "vec5 list \<Rightarrow> vec5 \<Rightarrow> real \<Rightarrow> nat \<Rightarrow> vec5" where
  "snap_toward_exemplar exemplars v drama k =
     (let d = max 0 (min 1 drama)
      in if d = 0 then v
         else vclip (vadd v (vscale (vsub (snap_target exemplars v k) v) d)) 0 1)"


text \<open>
  The discipline of the two flags: the decay loop has at most one request of its own in
  flight, and \<open>slow_in_flight\<close> is set exactly when it has one.
\<close>

definition single_flight :: "server \<Rightarrow> bool" where
  "single_flight s =
     (length (dispatched_requests s) \<le> 1 \<and> slow_in_flight s = (dispatched_requests s \<noteq> []))"

text \<open>
  Only the oldest request in flight can be the warm-up: every later one was dispatched by
  the decay loop.
\<close>

definition warmup_first :: "server \<Rightarrow> bool" where
  "warmup_first s = list_all is_trigger (tl (in_flight_requests s))"

text \<open>
  A property of two vectors that holds in each dimension, and the vectors of doubles in
  the unit cube.
\<close>

fun vall2 :: "(real \<Rightarrow> real \<Rightarrow> bool) \<Rightarrow> vec5 \<Rightarrow> vec5 \<Rightarrow> bool" where
  "vall2 P (Vec5 a b c d e) (Vec5 a' b' c' d' e') = (P a a' \<and> P b b' \<and> P c c' \<and> P d d' \<and> P e e')"

definition unit_doubles :: "vec5 \<Rightarrow> bool" where
  "unit_doubles v = (vall is_double v \<and> in_unit v)"


section \<open>Properties of the blender\<close>

lemmas vec_defs = vsub_def vadd_def vmul_def vscale_def vclip_def clip_def in_unit_def

lemmas blender_consts = DEFAULT_INFLUENCE_def BASELINE_INFLUENCE_def HOLD_SECONDS_def
  DECAY_RATE_def DWELL_SECONDS_def

lemma all_less_5: "(\<forall>i<5. P (i::nat)) = (P 0 \<and> P 1 \<and> P 2 \<and> P 3 \<and> P 4)"
proof -
  have "{i::nat. i < 5} = {0, 1, 2, 3, 4}" by auto
  then have "(\<forall>i<5. P i) = (\<forall>i\<in>{0, 1, 2, 3, 4::nat}. P i)" by blast
  then show ?thesis by simp
qed

subsection \<open>Construction\<close>

lemma tick_init: "tick (blender_init t0) now = ([0.5, 0.5, 0.5, 0.5, 0.8], blender_init t0)"
  by (simp add: tick_def blender_init_def vec_defs blender_consts)

lemma ticks_init: "ticks (blender_init t0) nows = blender_init t0"
  by (induction nows) (simp_all add: tick_init)

text \<open>
  Claim C10. A new blender has baseline and current both equal to
  (0.5, 0.5, 0.5, 0.5, 0.8), with \<open>hold_until = dwell_until = 0\<close>; it is settled, and
  after any number of ticks, at any clock readings, the next tick still returns
  (0.5, 0.5, 0.5, 0.5, 0.8) and leaves the state as constructed.
\<close>

theorem blender_starts_at_rest:
  "baseline (blender_init t0) = Vec5 0.5 0.5 0.5 0.5 0.8
   \<and> current (blender_init t0) = Vec5 0.5 0.5 0.5 0.5 0.8
   \<and> hold_until (blender_init t0) = 0 \<and> dwell_until (blender_init t0) = 0
   \<and> current (blender_init t0) = baseline (blender_init t0)
   \<and> settled (blender_init t0)
   \<and> tick (ticks (blender_init t0) nows) now = ([0.5, 0.5, 0.5, 0.5, 0.8], blender_init t0)"
  by (simp add: ticks_init tick_init)
     (simp add: blender_init_def settled_def has_settled_to_baseline_def vec_defs)

subsection \<open>The plateau\<close>

lemma tick_hold: "now < hold_until s \<Longrightarrow> tick s now = (tolist (current s), s)"
  by (simp add: tick_def)

lemma ticks_hold: "\<forall>t\<in>set nows. t < hold_until s \<Longrightarrow> ticks s nows = s"
  by (induction nows) (simp_all add: tick_hold)

lemma apply_burst_current: "current (apply_burst s now v influence) = v"
  by (simp add: apply_burst_def Let_def)

lemma apply_burst_hold: "hold_until (apply_burst s now v influence) = now + 1.2 + 0.8"
  by (simp add: apply_burst_def Let_def blender_consts)

text \<open>
  Claim C3. A tick at a clock reading strictly before \<open>hold_until\<close> returns \<open>current\<close> and
  leaves every field of the blender as it was. A burst at \<open>now0\<close> sets \<open>hold_until\<close> to
  \<open>now0 + 1.2 + 0.8\<close>, so any run of ticks read before that moment leaves the state the
  burst produced, and \<open>current\<close> is still the burst vector.
\<close>

theorem tick_during_hold:
  "(now < hold_until s \<longrightarrow> tick s now = (tolist (current s), s))
   \<and> hold_until (apply_burst s0 now0 v influence) = now0 + 1.2 + 0.8
   \<and> ((\<forall>t\<in>set nows. t < hold_until (apply_burst s0 now0 v influence)) \<longrightarrow>
        ticks (apply_burst s0 now0 v influence) nows = apply_burst s0 now0 v influence
        \<and> current (ticks (apply_burst s0 now0 v influence) nows) = v)"
  using ticks_hold [of nows "apply_burst s0 now0 v influence"]
  by (simp add: tick_hold apply_burst_current apply_burst_hold)

theorem tick_during_hold_witness:
  "(1 < hold_until (apply_burst (blender_init 0) 0 (Vec5 0.9 0.8 0.2 0.5 0.8) None)
    \<and> tick (apply_burst (blender_init 0) 0 (Vec5 0.9 0.8 0.2 0.5 0.8) None) 1 =
        ([0.9, 0.8, 0.2, 0.5, 0.8],
         apply_burst (blender_init 0) 0 (Vec5 0.9 0.8 0.2 0.5 0.8) None))
   \<and> 0.1 < hold_until (apply_burst (blender_init 0) 0 (Vec5 0.9 0.8 0.2 0.5 0.8) None)
   \<and> 1.9 < hold_until (apply_burst (blender_init 0) 0 (Vec5 0.9 0.8 0.2 0.5 0.8) None)
   \<and> current (ticks (apply_burst (blender_init 0) 0 (Vec5 0.9 0.8 0.2 0.5 0.8) None)
                [0.1, 1, 1.9])
       = Vec5 0.9 0.8 0.2 0.5 0.8"
  using tick_during_hold [where now = 1
      and s = "apply_burst (blender_init 0) 0 (Vec5 0.9 0.8 0.2 0.5 0.8) None"
      and ?s0.0 = "blender_init 0" and ?now0.0 = 0 and v = "Vec5 0.9 0.8 0.2 0.5 0.8"
      and influence = None and nows = "[0.1, 1, 1.9]"]
  by (simp add: apply_burst_current apply_burst_hold)

subsection \<open>Rounding to double precision\<close>

lemma rne_cases: "rne y = \<lfloor>y\<rfloor> \<or> rne y = \<lfloor>y\<rfloor> + 1"
  by (simp add: rne_def Let_def)

lemma rne_error: "\<bar>of_int (rne y) - y\<bar> \<le> 1/2"
  unfolding rne_def Let_def by (auto simp: abs_if; linarith)

lemma rne_of_int [simp]: "rne (of_int n) = n"
  by (simp add: rne_def)

lemma rne_near: "\<bar>y - of_int n\<bar> < 1/2 \<Longrightarrow> rne y = n"
proof -
  assume a: "\<bar>y - of_int n\<bar> < 1/2"
  have e: "\<bar>of_int (rne y) - y\<bar> \<le> 1/2" by (rule rne_error)
  have "\<bar>of_int (rne y) - (of_int n :: real)\<bar> < 1" using a e by linarith
  then have "\<bar>of_int (rne y - n) :: real\<bar> < 1" by simp
  then have "\<bar>rne y - n\<bar> < 1" by (metis of_int_abs of_int_less_1_iff)
  then show ?thesis by simp
qed

lemma rne_mono: "x \<le> y \<Longrightarrow> rne x \<le> rne y"
proof -
  assume xy: "x \<le> y"
  have fm: "\<lfloor>x\<rfloor> \<le> \<lfloor>y\<rfloor>" using xy by (rule floor_mono)
  show ?thesis
  proof (cases "\<lfloor>x\<rfloor> = \<lfloor>y\<rfloor>")
    case True
    then show ?thesis using xy unfolding rne_def Let_def by (auto split: if_splits)
  next
    case False
    then have "\<lfloor>x\<rfloor> + 1 \<le> \<lfloor>y\<rfloor>" using fm by simp
    moreover have "rne x \<le> \<lfloor>x\<rfloor> + 1" using rne_cases [of x] by auto
    moreover have "\<lfloor>y\<rfloor> \<le> rne y" using rne_cases [of y] by auto
    ultimately show ?thesis by linarith
  qed
qed

lemma rne_minus: "rne (- y) = - rne y"
proof (cases "y = of_int \<lfloor>y\<rfloor>")
  case True
  then have "- y = of_int (- \<lfloor>y\<rfloor>)" by simp
  then have "rne (- y) = - \<lfloor>y\<rfloor>" by (metis rne_of_int)
  moreover have "rne y = \<lfloor>y\<rfloor>" by (metis True rne_of_int)
  ultimately show ?thesis by simp
next
  case False
  have fl_neg: "\<lfloor>- y\<rfloor> = - \<lfloor>y\<rfloor> - 1"
    using False by (simp add: floor_minus ceiling_altdef)
  have d: "- y - of_int \<lfloor>- y\<rfloor> = 1 - (y - of_int \<lfloor>y\<rfloor>)"
    by (simp add: fl_neg)
  have ev: "even (- \<lfloor>y\<rfloor> - 1) = odd \<lfloor>y\<rfloor>" by simp
  show ?thesis
    unfolding rne_def Let_def d fl_neg ev
    by (auto split: if_splits)
qed


lemma pow2_pos [simp]: "0 < pow2 k"
  by (simp add: pow2_def)

lemma pow2_nonneg [simp]: "0 \<le> pow2 k"
  by (simp add: pow2_def)

lemma pow2_nonzero [simp]: "pow2 k \<noteq> 0"
  by (simp add: pow2_def)

lemma pow2_add: "pow2 (a + b) = pow2 a * pow2 b"
  by (simp add: pow2_def powr_add)

lemma pow2_0 [simp]: "pow2 0 = 1"
  by (simp add: pow2_def)

lemma pow2_minus: "pow2 (- k) = 1 / pow2 k"
  by (simp add: pow2_def powr_minus divide_inverse)

lemma pow2_le_iff [simp]: "pow2 a \<le> pow2 b \<longleftrightarrow> a \<le> b"
  by (simp add: pow2_def)

lemma pow2_less_iff [simp]: "pow2 a < pow2 b \<longleftrightarrow> a < b"
  by (simp add: pow2_def)

lemma pow2_nat: "0 \<le> k \<Longrightarrow> pow2 k = of_int (2 ^ nat k)"
proof -
  assume "0 \<le> k"
  then have "real_of_int k = real (nat k)" by simp
  then have "pow2 k = 2 powr real (nat k)" by (simp only: pow2_def)
  also have "\<dots> = 2 ^ nat k" by (simp add: powr_realpow)
  finally show ?thesis by simp
qed

lemma pow2_diff: "pow2 (a - b) = pow2 a / pow2 b"
  using pow2_add [of a "- b"] by (simp add: pow2_minus)

lemma expo_bounds:
  assumes "x \<noteq> 0"
  shows "pow2 (expo x) \<le> \<bar>x\<bar>" and "\<bar>x\<bar> < pow2 (expo x + 1)"
proof -
  have pos: "0 < \<bar>x\<bar>" using assms by simp
  have "\<lfloor>log 2 \<bar>x\<bar>\<rfloor> = expo x" by (simp add: expo_def)
  then have "2 powr of_int (expo x) \<le> \<bar>x\<bar> \<and> \<bar>x\<bar> < 2 powr (of_int (expo x) + 1)"
    using floor_log_eq_powr_iff [OF pos, of 2 "expo x"] by simp
  then show "pow2 (expo x) \<le> \<bar>x\<bar>" and "\<bar>x\<bar> < pow2 (expo x + 1)"
    by (simp_all add: pow2_def)
qed

lemma expo_eq:
  assumes "pow2 e \<le> \<bar>x\<bar>" and "\<bar>x\<bar> < pow2 (e + 1)"
  shows "expo x = e"
proof -
  have pos: "0 < \<bar>x\<bar>" using assms(1) pow2_pos [of e] by linarith
  have "2 powr of_int e \<le> \<bar>x\<bar> \<and> \<bar>x\<bar> < 2 powr (of_int e + 1)"
    using assms by (simp add: pow2_def)
  then show ?thesis
    unfolding expo_def using floor_log_eq_powr_iff [OF pos, of 2 e] by simp
qed

lemma expo_minus [simp]: "expo (- x) = expo x"
  by (simp add: expo_def)

lemma quantum_minus [simp]: "quantum (- x) = quantum x"
  by (simp add: quantum_def)

lemma quantum_pos [simp]: "0 < quantum x"
  by (simp add: quantum_def)

lemma quantum_nonneg [simp]: "0 \<le> quantum x"
  by (simp add: quantum_def)

lemma quantum_nonzero [simp]: "quantum x \<noteq> 0"
  using quantum_pos [of x] by linarith

lemma expo_mono:
  assumes "x \<noteq> 0" and "\<bar>x\<bar> \<le> \<bar>y\<bar>"
  shows "expo x \<le> expo y"
proof (rule ccontr)
  assume "\<not> expo x \<le> expo y"
  then have "expo y + 1 \<le> expo x" by simp
  then have "pow2 (expo y + 1) \<le> pow2 (expo x)" by simp
  moreover have "y \<noteq> 0" using assms by auto
  ultimately show False
    using expo_bounds(1) [OF assms(1)] expo_bounds(2) [of y] assms(2) by linarith
qed

lemma fl_0 [simp]: "fl 0 = 0"
  by (simp add: fl_def)

lemma fl_minus: "fl (- x) = - fl x"
  by (simp add: fl_def rne_minus)

lemma fl_error: "\<bar>fl x - x\<bar> \<le> quantum x / 2"
proof (cases "x = 0")
  case True
  then show ?thesis using quantum_pos [of 0] by simp
next
  case False
  let ?q = "quantum x"
  have "\<bar>fl x - x\<bar> = \<bar>?q * (of_int (rne (x / ?q)) - x / ?q)\<bar>"
    using False by (simp add: fl_def algebra_simps)
  also have "\<dots> = ?q * \<bar>of_int (rne (x / ?q)) - x / ?q\<bar>"
    by (simp add: abs_mult)
  also have "\<dots> \<le> ?q * (1/2)"
    by (rule mult_left_mono [OF rne_error]) simp
  finally show ?thesis by simp
qed

lemma quantum_le:
  assumes "x \<noteq> 0"
  shows "quantum x \<le> pow2 (- 52) * \<bar>x\<bar> + pow2 (- 1074)"
proof (cases "- 1022 \<le> expo x")
  case True
  then have "quantum x = pow2 (expo x + (- 52))" by (simp add: quantum_def max_def)
  also have "\<dots> = pow2 (- 52) * pow2 (expo x)" by (simp only: pow2_add mult.commute)
  also have "\<dots> \<le> pow2 (- 52) * \<bar>x\<bar>"
    by (rule mult_left_mono [OF expo_bounds(1) [OF assms]]) simp
  finally show ?thesis using pow2_pos [of "- 1074"] by linarith
next
  case False
  then have "quantum x = pow2 (- 1074)" by (simp add: quantum_def max_def)
  moreover have "0 \<le> pow2 (- 52) * \<bar>x\<bar>" by simp
  ultimately show ?thesis by linarith
qed

lemma fl_error_rel: "\<bar>fl x - x\<bar> \<le> pow2 (- 53) * \<bar>x\<bar> + pow2 (- 1075)"
proof (cases "x = 0")
  case True
  then show ?thesis by simp
next
  case False
  have h53: "pow2 (- 53) = pow2 (- 52) / 2" and h1075: "pow2 (- 1075) = pow2 (- 1074) / 2"
    using pow2_diff [of "- 52" 1] pow2_diff [of "- 1074" 1] by (simp_all add: pow2_def)
  have "\<bar>fl x - x\<bar> \<le> quantum x / 2" by (rule fl_error)
  also have "\<dots> \<le> (pow2 (- 52) * \<bar>x\<bar> + pow2 (- 1074)) / 2"
    using quantum_le [OF False] by simp
  finally show ?thesis by (simp add: h53 h1075 add_divide_distrib)
qed


lemma quantum_exp: "quantum x = pow2 (max (expo x) (- 1022) - 52)"
  by (simp add: quantum_def)

lemma quantum_times_53: "quantum x * of_int (2 ^ 53) = pow2 (max (expo x) (- 1022) + 1)"
proof -
  have "pow2 53 = of_int (2 ^ 53)" using pow2_nat [of 53] by simp
  then have "quantum x * of_int (2 ^ 53) = pow2 (max (expo x) (- 1022) - 52) * pow2 53"
    by (simp only: quantum_exp)
  also have "\<dots> = pow2 (max (expo x) (- 1022) - 52 + 53)" by (simp only: pow2_add)
  also have "max (expo x) (- 1022) - 52 + 53 = max (expo x) (- 1022) + 1" by linarith
  finally show ?thesis .
qed

lemma quantum_times_52: "quantum x * of_int (2 ^ 52) = pow2 (max (expo x) (- 1022))"
proof -
  have "pow2 52 = of_int (2 ^ 52)" using pow2_nat [of 52] by simp
  then have "quantum x * of_int (2 ^ 52) = pow2 (max (expo x) (- 1022) - 52) * pow2 52"
    by (simp only: quantum_exp)
  also have "\<dots> = pow2 (max (expo x) (- 1022) - 52 + 52)" by (simp only: pow2_add)
  also have "max (expo x) (- 1022) - 52 + 52 = max (expo x) (- 1022)" by linarith
  finally show ?thesis .
qed

lemma fl_repr_lt:
  assumes x: "x = of_int n * pow2 k" and n: "\<bar>n\<bar> < 2 ^ 53" and k: "- 1074 \<le> k"
  shows "fl x = x"
proof (cases "n = 0")
  case True
  then show ?thesis by (simp add: x)
next
  case False
  then have x0: "x \<noteq> 0" using pow2_pos [of k] by (simp add: x)
  let ?e = "max (expo x) (- 1022) - 52"
  have "\<bar>x\<bar> = of_int \<bar>n\<bar> * pow2 k" by (simp add: x abs_mult)
  also have "\<dots> < of_int (2 ^ 53) * pow2 k"
    using n by (intro mult_strict_right_mono) simp_all
  also have "\<dots> = pow2 (53 + k)"
    using pow2_nat [of 53] by (simp add: pow2_add)
  finally have "\<bar>x\<bar> < pow2 (53 + k)" .
  then have "pow2 (expo x) < pow2 (53 + k)"
    using expo_bounds(1) [OF x0] by linarith
  then have ek: "?e \<le> k" using k by simp
  then have p: "pow2 (k - ?e) = of_int (2 ^ nat (k - ?e))" by (intro pow2_nat) simp
  have "x / quantum x = of_int n * (pow2 k / pow2 ?e)" by (simp add: x quantum_exp)
  also have "\<dots> = of_int n * pow2 (k - ?e)" by (simp only: pow2_diff)
  also have "\<dots> = of_int (n * 2 ^ nat (k - ?e))" by (simp only: p of_int_mult)
  finally have "x / quantum x = of_int (n * 2 ^ nat (k - ?e))" .
  then have "of_int (rne (x / quantum x)) = x / quantum x" by (simp only: rne_of_int)
  then show ?thesis using x0 by (simp add: fl_def)
qed

lemma fl_repr:
  assumes x: "x = of_int n * pow2 k" and n: "\<bar>n\<bar> \<le> 2 ^ 53" and k: "- 1074 \<le> k"
  shows "fl x = x"
proof (cases "\<bar>n\<bar> < 2 ^ 53")
  case True
  show ?thesis by (rule fl_repr_lt [OF x True k])
next
  case False
  then have "\<bar>n\<bar> = 2 ^ 53" using n by simp
  then have "n = 2 ^ 53 \<or> n = - (2 ^ 53)" by linarith
  then have "x = of_int 1 * pow2 (53 + k) \<or> x = of_int (- 1) * pow2 (53 + k)"
    using pow2_nat [of 53] by (auto simp: x pow2_add)
  then show ?thesis
  proof
    assume "x = of_int 1 * pow2 (53 + k)"
    then show ?thesis using k by (intro fl_repr_lt [where n = 1 and k = "53 + k"]) simp_all
  next
    assume "x = of_int (- 1) * pow2 (53 + k)"
    then show ?thesis using k by (intro fl_repr_lt [where n = "- 1" and k = "53 + k"]) simp_all
  qed
qed

lemma rne_bound:
  assumes "x \<noteq> 0"
  shows "\<bar>rne (x / quantum x)\<bar> \<le> 2 ^ 53"
proof -
  let ?e = "max (expo x) (- 1022) - 52"
  have "\<bar>x\<bar> < pow2 (expo x + 1)" by (rule expo_bounds(2) [OF assms])
  also have "\<dots> \<le> pow2 (max (expo x) (- 1022) + 1)" by simp
  also have "\<dots> = quantum x * of_int (2 ^ 53)" by (simp only: quantum_times_53)
  finally have "\<bar>x\<bar> < quantum x * of_int (2 ^ 53)" .
  then have "\<bar>x\<bar> / quantum x < of_int (2 ^ 53)"
    by (simp only: pos_divide_less_eq [OF quantum_pos] mult.commute)
  moreover have "\<bar>x / quantum x\<bar> = \<bar>x\<bar> / quantum x"
    by (simp only: abs_divide abs_of_pos [OF quantum_pos])
  ultimately have "x / quantum x \<le> of_int (2 ^ 53)" "of_int (- (2 ^ 53)) \<le> x / quantum x"
    by (simp_all only: of_int_minus)
  then have "rne (x / quantum x) \<le> rne (of_int (2 ^ 53))"
    "rne (of_int (- (2 ^ 53))) \<le> rne (x / quantum x)"
    by (auto intro: rne_mono)
  then have "rne (x / quantum x) \<le> 2 ^ 53" "- (2 ^ 53) \<le> rne (x / quantum x)"
    by (simp_all only: rne_of_int)
  then show ?thesis by linarith
qed

lemma fl_fl [simp]: "fl (fl x) = fl x"
proof (cases "x = 0")
  case True
  then show ?thesis by simp
next
  case False
  have "fl x = of_int (rne (x / quantum x)) * pow2 (max (expo x) (- 1022) - 52)"
    using False by (simp add: fl_def quantum_exp)
  then show ?thesis
    using rne_bound [OF False] by (rule fl_repr) simp
qed

lemma fl_nonneg: "0 \<le> x \<Longrightarrow> 0 \<le> fl x"
proof -
  assume "0 \<le> x"
  then have "0 \<le> x / quantum x" by simp
  then have "rne 0 \<le> rne (x / quantum x)" by (rule rne_mono)
  then have "0 \<le> rne (x / quantum x)" using rne_of_int [of 0] by simp
  then show ?thesis by (simp add: fl_def)
qed

lemma fl_mono_pos:
  assumes "0 < x" and "x \<le> y"
  shows "fl x \<le> fl y"
proof -
  let ?ex = "max (expo x) (- 1022)" and ?ey = "max (expo y) (- 1022)"
  have x0: "x \<noteq> 0" and y0: "y \<noteq> 0" and ypos: "0 < y" using assms by simp_all
  have "expo x \<le> expo y" using assms by (intro expo_mono) simp_all
  then have le: "?ex \<le> ?ey" by simp
  show ?thesis
  proof (cases "?ex = ?ey")
    case True
    then have q: "quantum y = quantum x" by (simp add: quantum_exp)
    have "x / quantum x \<le> y / quantum x" using assms by (simp add: divide_right_mono)
    then have "rne (x / quantum x) \<le> rne (y / quantum x)" by (rule rne_mono)
    then have "quantum x * of_int (rne (x / quantum x)) \<le> quantum x * of_int (rne (y / quantum x))"
      by (intro mult_left_mono) simp_all
    then show ?thesis using x0 y0 by (simp add: fl_def q)
  next
    case False
    then have lt: "?ex < ?ey" using le by linarith
    then have ey: "?ey = expo y" by linarith
    have "\<bar>x\<bar> < pow2 (expo x + 1)" by (rule expo_bounds(2) [OF x0])
    also have "\<dots> \<le> pow2 (?ex + 1)" by simp
    also have "\<dots> = quantum x * of_int (2 ^ 53)" by (simp only: quantum_times_53)
    finally have "x / quantum x \<le> of_int (2 ^ 53)"
      using assms(1) by (simp add: pos_divide_le_eq mult.commute)
    then have "rne (x / quantum x) \<le> rne (of_int (2 ^ 53))" by (rule rne_mono)
    then have "rne (x / quantum x) \<le> 2 ^ 53" by (simp only: rne_of_int)
    then have "(of_int (rne (x / quantum x)) :: real) \<le> of_int (2 ^ 53)" by (simp only: of_int_le_iff)
    then have "quantum x * of_int (rne (x / quantum x)) \<le> quantum x * of_int (2 ^ 53)"
      by (intro mult_left_mono) simp_all
    also have "quantum x * of_int (2 ^ 53) = pow2 (?ex + 1)" by (rule quantum_times_53)
    also have "\<dots> \<le> pow2 ?ey" using lt by (simp only: pow2_le_iff)
    finally have a: "fl x \<le> pow2 ?ey" using x0 by (simp add: fl_def)
    have "pow2 ?ey = quantum y * of_int (2 ^ 52)" by (simp only: quantum_times_52)
    moreover have "pow2 ?ey \<le> \<bar>y\<bar>" unfolding ey by (rule expo_bounds(1) [OF y0])
    ultimately have "of_int (2 ^ 52) \<le> y / quantum y"
      using ypos by (simp add: pos_le_divide_eq mult.commute)
    then have "rne (of_int (2 ^ 52)) \<le> rne (y / quantum y)" by (rule rne_mono)
    then have "2 ^ 52 \<le> rne (y / quantum y)" by (simp only: rne_of_int)
    then have "(of_int (2 ^ 52) :: real) \<le> of_int (rne (y / quantum y))" by (simp only: of_int_le_iff)
    then have "quantum y * of_int (2 ^ 52) \<le> quantum y * of_int (rne (y / quantum y))"
      by (intro mult_left_mono) simp_all
    then have "pow2 ?ey \<le> quantum y * of_int (rne (y / quantum y))"
      by (simp only: quantum_times_52)
    then have b: "pow2 ?ey \<le> fl y" using y0 by (simp only: fl_def if_False)
    from a b show ?thesis by linarith
  qed
qed

lemma fl_mono: "x \<le> y \<Longrightarrow> fl x \<le> fl y"
proof -
  assume xy: "x \<le> y"
  consider "0 < x" | "x \<le> 0" "0 \<le> y" | "y < 0" by linarith
  then show ?thesis
  proof cases
    case 1
    then show ?thesis using xy by (rule fl_mono_pos)
  next
    case 2
    have "0 \<le> fl y" using 2(2) by (rule fl_nonneg)
    moreover have "0 \<le> fl (- x)" using 2(1) by (intro fl_nonneg) simp
    ultimately show ?thesis by (simp add: fl_minus)
  next
    case 3
    then have "0 < - y" "- y \<le> - x" using xy by simp_all
    then have "fl (- y) \<le> fl (- x)" by (rule fl_mono_pos)
    then show ?thesis by (simp add: fl_minus)
  qed
qed


lemma pow2_numeral: "pow2 (numeral n) = 2 ^ numeral n"
  using pow2_nat [of "numeral n"] by simp

lemma pow2_neg_numeral: "pow2 (- numeral n) = 1 / 2 ^ numeral n"
  by (simp only: pow2_minus pow2_numeral)

lemma pow2_1: "pow2 1 = 2"
  using pow2_nat [of 1] by simp

lemma pow2_neg_1: "pow2 (- 1) = 1 / 2"
  by (simp only: pow2_minus pow2_1)

lemmas pow2_eval = pow2_numeral pow2_neg_numeral pow2_1 pow2_neg_1

lemma fl_eval:
  assumes "pow2 e \<le> \<bar>x\<bar>" and "\<bar>x\<bar> < pow2 (e + 1)" and "- 1022 \<le> e"
  shows "fl x = pow2 (e - 52) * of_int (rne (x / pow2 (e - 52)))"
proof -
  have e: "expo x = e" using assms(1,2) by (rule expo_eq)
  have "0 < \<bar>x\<bar>" using assms(1) pow2_pos [of e] by linarith
  then have "x \<noteq> 0" by simp
  moreover have "quantum x = pow2 (e - 52)" using assms(3) by (simp add: quantum_exp e)
  ultimately show ?thesis by (simp add: fl_def)
qed

lemma fl_near:
  assumes "pow2 e \<le> \<bar>x\<bar>" and "\<bar>x\<bar> < pow2 (e + 1)" and "- 1022 \<le> e"
    and "\<bar>x / pow2 (e - 52) - of_int m\<bar> < 1/2"
  shows "fl x = of_int m * pow2 (e - 52)"
  using fl_eval [OF assms(1-3)] rne_near [OF assms(4)] by simp

lemmas f64_defs = fadd_def fsub_def fmul_def vfsub_def vfadd_def vfscale_def

lemma double_multiple:
  assumes "fl x = x"
  shows "\<exists>m::int. x = of_int m * pow2 (- 1074)"
proof (cases "x = 0")
  case True
  then have "x = of_int 0 * pow2 (- 1074)" by simp
  then show ?thesis by blast
next
  case False
  let ?e = "max (expo x) (- 1022) - 52"
  define K :: int where "K = 2 ^ nat (?e + 1074)"
  define n where "n = rne (x / quantum x)"
  have "0 \<le> ?e + 1074" by simp
  then have "pow2 (?e + 1074) = of_int K" unfolding K_def by (rule pow2_nat)
  moreover have "pow2 (?e + 1074 + (- 1074)) = pow2 (?e + 1074) * pow2 (- 1074)"
    by (rule pow2_add)
  moreover have "?e + 1074 + (- 1074) = ?e" by linarith
  ultimately have q: "quantum x = of_int K * pow2 (- 1074)" by (simp only: quantum_exp)
  have "x = quantum x * of_int n"
    using assms False by (simp add: fl_def n_def)
  then have "x = of_int K * pow2 (- 1074) * of_int n" by (simp only: q)
  then have "x = of_int (K * n) * pow2 (- 1074)" by (simp only: of_int_mult mult_ac)
  then show ?thesis by blast
qed

lemma double_gap:
  assumes "fl c = c" and "fl b = b" and "c < b"
  shows "pow2 (- 1074) \<le> b - c"
proof -
  obtain m n :: int where c: "c = of_int m * pow2 (- 1074)" and b: "b = of_int n * pow2 (- 1074)"
    using double_multiple [OF assms(1)] double_multiple [OF assms(2)] by blast
  have "of_int m * pow2 (- 1074) < of_int n * pow2 (- 1074)" using assms(3) c b by simp
  then have "m < n" by (simp add: mult_less_cancel_right)
  then have "(1::real) \<le> of_int (n - m)" by simp
  then have "1 * pow2 (- 1074) \<le> of_int (n - m) * pow2 (- 1074)"
    by (intro mult_right_mono) simp_all
  then show ?thesis by (simp add: c b algebra_simps)
qed

lemma fl_1_16: "fl (1/16) = 1/16"
  using fl_repr [where x = "1/16" and n = 1 and k = "- 4"] by (simp add: pow2_eval)

lemma decay_rate_bounds: "0 \<le> fl DECAY_RATE" "fl DECAY_RATE \<le> 1/16"
proof -
  show "0 \<le> fl DECAY_RATE" by (rule fl_nonneg) (simp add: DECAY_RATE_def)
  have "fl DECAY_RATE \<le> fl (1/16)" by (rule fl_mono) (simp add: DECAY_RATE_def)
  then show "fl DECAY_RATE \<le> 1/16" by (simp only: fl_1_16)
qed

lemma fl_upper:
  assumes "0 \<le> y"
  shows "fl y \<le> 2 * y + pow2 (- 1074) / 2"
proof -
  have h: "pow2 (- 1075) = pow2 (- 1074) / 2"
    using pow2_diff [of "- 1074" 1] by (simp add: pow2_1)
  have p53: "pow2 (- 53) \<le> 1" using pow2_le_iff [of "- 53" 0] by simp
  have "pow2 (- 53) * y \<le> 1 * y" by (rule mult_right_mono [OF p53 assms])
  moreover have "\<bar>fl y - y\<bar> \<le> pow2 (- 53) * \<bar>y\<bar> + pow2 (- 1075)" by (rule fl_error_rel)
  then have "fl y - y \<le> pow2 (- 53) * y + pow2 (- 1074) / 2"
    using assms by (simp only: h abs_of_nonneg)
  ultimately show ?thesis by linarith
qed

lemma fl_small_le:
  assumes "0 \<le> y" and "y \<le> d / 4" and "pow2 (- 1074) \<le> d"
  shows "fl y \<le> d"
  using fl_upper [OF assms(1)] assms(2,3) by linarith

lemma fl_le_twice:
  assumes "pow2 (- 1074) \<le> d"
  shows "fl d \<le> 2 * d + d / 2"
proof -
  have "0 \<le> d" using assms pow2_pos [of "- 1074"] by linarith
  then show ?thesis using fl_upper [of d] assms by linarith
qed

lemma decay_increment:
  assumes "fl c = c" and "fl b = b" and "c \<le> b"
  shows "0 \<le> fl (fl (b - c) * fl DECAY_RATE)" and "fl (fl (b - c) * fl DECAY_RATE) \<le> b - c"
proof -
  have a0: "0 \<le> fl (b - c)" using assms(3) by (intro fl_nonneg) simp
  then have p0: "0 \<le> fl (b - c) * fl DECAY_RATE"
    using decay_rate_bounds(1) by (rule mult_nonneg_nonneg)
  then show "0 \<le> fl (fl (b - c) * fl DECAY_RATE)" by (rule fl_nonneg)
  show "fl (fl (b - c) * fl DECAY_RATE) \<le> b - c"
  proof (cases "c = b")
    case True
    then show ?thesis by simp
  next
    case False
    then have "c < b" using assms(3) by simp
    then have gap: "pow2 (- 1074) \<le> b - c" by (rule double_gap [OF assms(1,2)])
    have "fl (b - c) * fl DECAY_RATE \<le> fl (b - c) * (1/16)"
      by (rule mult_left_mono [OF decay_rate_bounds(2) a0])
    also have "\<dots> \<le> (2 * (b - c) + (b - c) / 2) * (1/16)"
      by (rule mult_right_mono [OF fl_le_twice [OF gap]]) simp
    also have "\<dots> \<le> (b - c) / 4" using assms(3) by (simp add: field_simps)
    finally have "fl (b - c) * fl DECAY_RATE \<le> (b - c) / 4" .
    with p0 show ?thesis using gap by (rule fl_small_le)
  qed
qed

lemma decay64_up:
  assumes "fl c = c" and "fl b = b" and "c \<le> b"
  shows "c \<le> fl (c + fl (fl (b - c) * fl DECAY_RATE))"
    and "fl (c + fl (fl (b - c) * fl DECAY_RATE)) \<le> b"
proof -
  let ?t = "fl (fl (b - c) * fl DECAY_RATE)"
  note t = decay_increment [OF assms]
  have "fl c \<le> fl (c + ?t)" using t(1) by (intro fl_mono) simp
  then show "c \<le> fl (c + ?t)" by (simp only: assms(1))
  have "fl (c + ?t) \<le> fl b" using t(2) by (intro fl_mono) simp
  then show "fl (c + ?t) \<le> b" by (simp only: assms(2))
qed

lemma decay64_down:
  assumes "fl c = c" and "fl b = b" and "b \<le> c"
  shows "b \<le> fl (c + fl (fl (b - c) * fl DECAY_RATE))"
    and "fl (c + fl (fl (b - c) * fl DECAY_RATE)) \<le> c"
proof -
  let ?t = "fl (fl (c - b) * fl DECAY_RATE)"
  note t = decay_increment [OF assms(2,1,3)]
  have "fl (b - c) = - fl (c - b)" using fl_minus [of "c - b"] by simp
  then have e: "fl (fl (b - c) * fl DECAY_RATE) = - ?t"
    using fl_minus [of "fl (c - b) * fl DECAY_RATE"] by simp
  have "fl b \<le> fl (c - ?t)" using t(2) by (intro fl_mono) simp
  then show "b \<le> fl (c + fl (fl (b - c) * fl DECAY_RATE))" by (simp add: e assms(2))
  have "fl (c - ?t) \<le> fl c" using t(1) by (intro fl_mono) simp
  then show "fl (c + fl (fl (b - c) * fl DECAY_RATE)) \<le> c" by (simp add: e assms(1))
qed

lemma decay64_toward:
  assumes "is_double c" and "is_double b"
  shows "toward b c (fl (c + fl (fl (b - c) * fl DECAY_RATE)))"
proof (cases "c \<le> b")
  case True
  then show ?thesis
    using decay64_up [of c b] assms unfolding toward_def is_double_def by (simp add: min_def max_def)
next
  case False
  then have "b \<le> c" by simp
  then show ?thesis
    using decay64_down [of c b] assms unfolding toward_def is_double_def by (simp add: min_def max_def)
qed

lemma decay64_fixed: "is_double b \<Longrightarrow> fl (b + fl (fl (b - b) * fl DECAY_RATE)) = b"
  by (simp add: is_double_def)

subsection \<open>The literals and the steps of the examples\<close>

lemma fl_006: "fl (0.06) = 1080863910568919 / 2 ^ 54"
  using fl_near [where x = "0.06" and e = "- 5" and m = "8646911284551352"]
  by (simp add: pow2_eval)

lemma fl_09: "fl (0.9) = 8106479329266893 / 2 ^ 53"
  using fl_near [where x = "0.9" and e = "- 1" and m = "8106479329266893"]
  by (simp add: pow2_eval)

lemma fl_0876: "fl (0.876) = 7890306547153109 / 2 ^ 53"
  using fl_near [where x = "0.876" and e = "- 1" and m = "7890306547153109"]
  by (simp add: pow2_eval)

lemma fl_08: "fl (0.8) = 3602879701896397 / 2 ^ 52"
  using fl_near [where x = "0.8" and e = "- 1" and m = "7205759403792794"]
  by (simp add: pow2_eval)

lemma fl_12: "fl (1.2) = 5404319552844595 / 2 ^ 52"
  using fl_near [where x = "1.2" and e = "0" and m = "5404319552844595"]
  by (simp add: pow2_eval)

lemma decay09_sub: "fl (0.5 - 8106479329266893 / 2 ^ 53) = - (3602879701896397 / 2 ^ 53)"
  using fl_repr [where x = "0.5 - 8106479329266893 / 2 ^ 53" and n = "-3602879701896397" and k = "- 53"]
  by (simp add: pow2_eval)

lemma decay09_mul: "fl (- (3602879701896397 / 2 ^ 53) * (1080863910568919 / 2 ^ 54)) = - (3458764513820541 / 2 ^ 57)"
  using fl_near [where x = "- (3602879701896397 / 2 ^ 53) * (1080863910568919 / 2 ^ 54)" and e = "- 6" and m = "-6917529027641082"]
  by (simp add: pow2_eval)

lemma decay09_add: "fl (8106479329266893 / 2 ^ 53 + - (3458764513820541 / 2 ^ 57)) = 7890306547153109 / 2 ^ 53"
  using fl_near [where x = "8106479329266893 / 2 ^ 53 + - (3458764513820541 / 2 ^ 57)" and e = "- 1" and m = "7890306547153109"]
  by (simp add: pow2_eval)

lemma stall_sub: "fl (0.5 - 562949953421313 / 2 ^ 50) = - (1 / 2 ^ 50)"
  using fl_repr [where x = "0.5 - 562949953421313 / 2 ^ 50" and n = "-1" and k = "- 50"]
  by (simp add: pow2_eval)

lemma stall_mul: "fl (- (1 / 2 ^ 50) * (1080863910568919 / 2 ^ 54)) = - (1080863910568919 / 2 ^ 104)"
  using fl_repr [where x = "- (1 / 2 ^ 50) * (1080863910568919 / 2 ^ 54)" and n = "-1080863910568919" and k = "- 104"]
  by (simp add: pow2_eval)

lemma stall_add: "fl (562949953421313 / 2 ^ 50 + - (1080863910568919 / 2 ^ 104)) = 562949953421313 / 2 ^ 50"
  using fl_near [where x = "562949953421313 / 2 ^ 50 + - (1080863910568919 / 2 ^ 104)" and e = "- 1" and m = "4503599627370504"]
  by (simp add: pow2_eval)

lemma fl_022: "fl (0.22) = 7926335344172073 / 2 ^ 55"
  using fl_near [where x = "0.22" and e = "- 3" and m = "7926335344172073"]
  by (simp add: pow2_eval)

lemma fl_02: "fl (0.2) = 3602879701896397 / 2 ^ 54"
  using fl_near [where x = "0.2" and e = "- 3" and m = "7205759403792794"]
  by (simp add: pow2_eval)

lemma fl_01: "fl (0.1) = 3602879701896397 / 2 ^ 55"
  using fl_near [where x = "0.1" and e = "- 4" and m = "7205759403792794"]
  by (simp add: pow2_eval)

lemma fl_0588: "fl (0.588) = 5296233161787703 / 2 ^ 53"
  using fl_near [where x = "0.588" and e = "- 1" and m = "5296233161787703"]
  by (simp add: pow2_eval)

lemma fl_0566: "fl (0.566) = 5098074778183401 / 2 ^ 53"
  using fl_near [where x = "0.566" and e = "- 1" and m = "5098074778183401"]
  by (simp add: pow2_eval)

lemma fl_0434: "fl (0.434) = 7818248953115181 / 2 ^ 54"
  using fl_near [where x = "0.434" and e = "- 2" and m = "7818248953115181"]
  by (simp add: pow2_eval)

lemma burst09_sub: "fl (8106479329266893 / 2 ^ 53 - 0.5) = 3602879701896397 / 2 ^ 53"
  using fl_repr [where x = "8106479329266893 / 2 ^ 53 - 0.5" and n = "3602879701896397" and k = "- 53"]
  by (simp add: pow2_eval)

lemma burst09_mul: "fl (3602879701896397 / 2 ^ 53 * (7926335344172073 / 2 ^ 55)) = 6341068275337659 / 2 ^ 56"
  using fl_near [where x = "3602879701896397 / 2 ^ 53 * (7926335344172073 / 2 ^ 55)" and e = "- 4" and m = "6341068275337659"]
  by (simp add: pow2_eval)

lemma burst09_add: "fl (0.5 + 6341068275337659 / 2 ^ 56) = 5296233161787703 / 2 ^ 53"
  using fl_near [where x = "0.5 + 6341068275337659 / 2 ^ 56" and e = "- 1" and m = "5296233161787703"]
  by (simp add: pow2_eval)

lemma burst08_sub: "fl (3602879701896397 / 2 ^ 52 - 0.5) = 1351079888211149 / 2 ^ 52"
  using fl_repr [where x = "3602879701896397 / 2 ^ 52 - 0.5" and n = "1351079888211149" and k = "- 52"]
  by (simp add: pow2_eval)

lemma burst08_mul: "fl (1351079888211149 / 2 ^ 52 * (7926335344172073 / 2 ^ 55)) = 4755801206503245 / 2 ^ 56"
  using fl_near [where x = "1351079888211149 / 2 ^ 52 * (7926335344172073 / 2 ^ 55)" and e = "- 4" and m = "4755801206503245"]
  by (simp add: pow2_eval)

lemma burst08_add: "fl (0.5 + 4755801206503245 / 2 ^ 56) = 2549037389091701 / 2 ^ 52"
  using fl_near [where x = "0.5 + 4755801206503245 / 2 ^ 56" and e = "- 1" and m = "5098074778183402"]
  by (simp add: pow2_eval)

lemma burst02_sub: "fl (3602879701896397 / 2 ^ 54 - 0.5) = - (5404319552844595 / 2 ^ 54)"
  using fl_repr [where x = "3602879701896397 / 2 ^ 54 - 0.5" and n = "-5404319552844595" and k = "- 54"]
  by (simp add: pow2_eval)

lemma burst02_mul: "fl (- (5404319552844595 / 2 ^ 54) * (7926335344172073 / 2 ^ 55)) = - (1188950301625811 / 2 ^ 54)"
  using fl_near [where x = "- (5404319552844595 / 2 ^ 54) * (7926335344172073 / 2 ^ 55)" and e = "- 4" and m = "-4755801206503244"]
  by (simp add: pow2_eval)

lemma burst02_add: "fl (0.5 + - (1188950301625811 / 2 ^ 54)) = 7818248953115181 / 2 ^ 54"
  using fl_repr [where x = "0.5 + - (1188950301625811 / 2 ^ 54)" and n = "7818248953115181" and k = "- 54"]
  by (simp add: pow2_eval)

lemma full01_sub: "fl (3602879701896397 / 2 ^ 55 - 0.5) = - (3602879701896397 / 2 ^ 53)"
  using fl_eval [where x = "3602879701896397 / 2 ^ 55 - 0.5" and e = "- 2"]
  by (simp add: pow2_eval rne_def)

lemma full01_mul: "fl (- (3602879701896397 / 2 ^ 53) * 1) = - (3602879701896397 / 2 ^ 53)"
  using fl_repr [where x = "- (3602879701896397 / 2 ^ 53) * 1" and n = "-3602879701896397" and k = "- 53"]
  by (simp add: pow2_eval)

lemma full01_add: "fl (0.5 + - (3602879701896397 / 2 ^ 53)) = 900719925474099 / 2 ^ 53"
  using fl_repr [where x = "0.5 + - (3602879701896397 / 2 ^ 53)" and n = "900719925474099" and k = "- 53"]
  by (simp add: pow2_eval)

subsection \<open>Decay\<close>

lemma fl_half [simp]: "fl (1/2) = 1/2"
  using fl_repr [where x = "1/2" and n = 1 and k = "- 1"] by (simp add: pow2_eval)

lemma fl_one [simp]: "fl 1 = 1"
  using fl_repr [where x = 1 and n = 1 and k = 0] by simp

lemma fl_numeral_small:
  "fl 2 = 2" "fl 3 = 3"
  using fl_repr [where x = 2 and n = 2 and k = 0] fl_repr [where x = 3 and n = 3 and k = 0]
  by simp_all

lemma fl_unit: "0 \<le> x \<Longrightarrow> x \<le> 1 \<Longrightarrow> 0 \<le> fl x \<and> fl x \<le> 1"
  using fl_mono [of 0 x] fl_mono [of x 1] by simp

lemma decay09: "fl (fl 0.9 + fl (fl (0.5 - fl 0.9) * fl 0.06)) = fl 0.876"
  by (simp only: fl_09 fl_006 decay09_sub decay09_mul decay09_add fl_0876)

lemma stall: "fl (562949953421313 / 2 ^ 50 + fl (fl (0.5 - 562949953421313 / 2 ^ 50) * fl 0.06))
    = 562949953421313 / 2 ^ 50"
  by (simp only: fl_006 stall_sub stall_mul stall_add)

lemma tick64_decay:
  "hold_until s \<le> now \<Longrightarrow>
   tick64 s now =
     (tolist (vmap2 (\<lambda>c b. fl (c + fl (fl (b - c) * fl 0.06))) (current s) (baseline s)),
      s\<lparr>current := vmap2 (\<lambda>c b. fl (c + fl (fl (b - c) * fl 0.06))) (current s) (baseline s)\<rparr>)"
  by (cases "current s"; cases "baseline s")
     (simp add: tick64_def Let_def f64_defs DECAY_RATE_def)

lemma toward_unit:
  "toward b c c' \<Longrightarrow> 0 \<le> c \<and> c \<le> 1 \<Longrightarrow> 0 \<le> b \<and> b \<le> 1 \<Longrightarrow> 0 \<le> c' \<and> c' \<le> 1"
  unfolding toward_def by (auto simp: min_def max_def split: if_splits)

lemma decay64_step:
  assumes "is_double c" and "is_double b"
  shows "toward b c (fl (c + fl (fl (b - c) * fl 0.06)))"
    and "is_double (fl (c + fl (fl (b - c) * fl 0.06)))"
  using decay64_toward [OF assms] by (simp_all add: DECAY_RATE_def is_double_def)

lemma decay64_vec:
  assumes "unit_doubles c" and "unit_doubles b"
  shows "vall3 toward b c (vmap2 (\<lambda>c b. fl (c + fl (fl (b - c) * fl 0.06))) c b)"
    and "unit_doubles (vmap2 (\<lambda>c b. fl (c + fl (fl (b - c) * fl 0.06))) c b)"
proof -
  obtain c0 c1 c2 c3 c4 where c: "c = Vec5 c0 c1 c2 c3 c4" by (cases c)
  obtain b0 b1 b2 b3 b4 where b: "b = Vec5 b0 b1 b2 b3 b4" by (cases b)
  have d: "is_double c0" "is_double c1" "is_double c2" "is_double c3" "is_double c4"
    "is_double b0" "is_double b1" "is_double b2" "is_double b3" "is_double b4"
    using assms by (simp_all add: unit_doubles_def c b)
  have u: "0 \<le> c0 \<and> c0 \<le> 1" "0 \<le> c1 \<and> c1 \<le> 1" "0 \<le> c2 \<and> c2 \<le> 1"
    "0 \<le> c3 \<and> c3 \<le> 1" "0 \<le> c4 \<and> c4 \<le> 1"
    "0 \<le> b0 \<and> b0 \<le> 1" "0 \<le> b1 \<and> b1 \<le> 1" "0 \<le> b2 \<and> b2 \<le> 1"
    "0 \<le> b3 \<and> b3 \<le> 1" "0 \<le> b4 \<and> b4 \<le> 1"
    using assms by (simp_all add: unit_doubles_def in_unit_def c b)
  note t = decay64_step(1) [OF d(1) d(6)] decay64_step(1) [OF d(2) d(7)]
    decay64_step(1) [OF d(3) d(8)] decay64_step(1) [OF d(4) d(9)] decay64_step(1) [OF d(5) d(10)]
  show "vall3 toward b c (vmap2 (\<lambda>c b. fl (c + fl (fl (b - c) * fl 0.06))) c b)"
    unfolding c b using t by (simp only: vmap2.simps vall3.simps simp_thms)
  have dd: "is_double (fl (c0 + fl (fl (b0 - c0) * fl 0.06)))"
    "is_double (fl (c1 + fl (fl (b1 - c1) * fl 0.06)))"
    "is_double (fl (c2 + fl (fl (b2 - c2) * fl 0.06)))"
    "is_double (fl (c3 + fl (fl (b3 - c3) * fl 0.06)))"
    "is_double (fl (c4 + fl (fl (b4 - c4) * fl 0.06)))"
    by (simp_all only: is_double_def fl_fl)
  note r = toward_unit [OF t(1) u(1) u(6)] toward_unit [OF t(2) u(2) u(7)]
    toward_unit [OF t(3) u(3) u(8)] toward_unit [OF t(4) u(4) u(9)] toward_unit [OF t(5) u(5) u(10)]
  show "unit_doubles (vmap2 (\<lambda>c b. fl (c + fl (fl (b - c) * fl 0.06))) c b)"
    unfolding c b unit_doubles_def in_unit_def using dd r
    by (simp only: vmap2.simps vall.simps simp_thms)
qed

lemma ticks64_decay:
  "\<forall>t\<in>set nows. hold_until s \<le> t \<Longrightarrow> unit_doubles (current s) \<Longrightarrow> unit_doubles (baseline s) \<Longrightarrow>
   baseline (ticks64 s nows) = baseline s \<and> hold_until (ticks64 s nows) = hold_until s
   \<and> unit_doubles (current (ticks64 s nows))"
proof (induction nows arbitrary: s)
  case Nil
  then show ?case by simp
next
  case (Cons t nows)
  then have t: "hold_until s \<le> t" by simp
  let ?s' = "s\<lparr>current := vmap2 (\<lambda>c b. fl (c + fl (fl (b - c) * fl 0.06))) (current s) (baseline s)\<rparr>"
  have a: "\<forall>u\<in>set nows. hold_until ?s' \<le> u" using Cons.prems(1) by simp
  have b: "unit_doubles (current ?s')"
    using decay64_vec(2) [OF Cons.prems(2,3)] by simp
  have c: "unit_doubles (baseline ?s')" using Cons.prems(3) by simp
  from Cons.IH [OF a b c] show ?case by (simp add: tick64_decay [OF t])
qed

lemma expo_one: "expo 1 = 0"
  by (rule expo_eq) (simp_all add: pow2_1)

lemma quantum_unit:
  assumes "x \<noteq> 0" and "\<bar>x\<bar> \<le> 1"
  shows "quantum x \<le> pow2 (- 52)"
proof -
  have "expo x \<le> expo 1" using assms by (intro expo_mono) simp_all
  then have "max (expo x) (- 1022) - 52 \<le> - 52" by (simp add: expo_one)
  then show ?thesis unfolding quantum_def by simp
qed

lemma fl_moves:
  assumes "\<bar>x\<bar> \<le> 1" and "pow2 (- 53) < \<bar>x - c\<bar>"
  shows "fl x \<noteq> c"
proof (cases "x = 0")
  case True
  have "0 < \<bar>x - c\<bar>" using assms(2) pow2_pos [of "- 53"] by linarith
  then show ?thesis using True by auto
next
  case False
  have h: "pow2 (- 52) / 2 = pow2 (- 53)"
    using pow2_diff [of "- 52" 1] by (simp add: pow2_1)
  have "\<bar>fl x - x\<bar> \<le> quantum x / 2" by (rule fl_error)
  also have "\<dots> \<le> pow2 (- 52) / 2" using quantum_unit [OF False assms(1)] by simp
  finally have "\<bar>fl x - x\<bar> \<le> pow2 (- 53)" by (simp only: h)
  then show ?thesis using assms(2) by auto
qed

lemma decay_rate_lower: "1 / 32 \<le> fl DECAY_RATE"
proof -
  have "fl (1 / 32) = 1 / 32"
    using fl_repr [where x = "1 / 32" and n = 1 and k = "- 5"] by (simp add: pow2_eval)
  moreover have "fl (1 / 32) \<le> fl DECAY_RATE" by (rule fl_mono) (simp add: DECAY_RATE_def)
  ultimately show ?thesis by simp
qed

lemma decay_increment_lower:
  assumes "pow2 (- 47) \<le> g"
  shows "pow2 (- 52) \<le> fl (fl g * fl DECAY_RATE)"
proof -
  have r47: "fl (pow2 (- 47)) = pow2 (- 47)"
    by (rule fl_repr [where n = 1 and k = "- 47"]) simp_all
  have r52: "fl (pow2 (- 52)) = pow2 (- 52)"
    by (rule fl_repr [where n = 1 and k = "- 52"]) simp_all
  have g: "pow2 (- 47) \<le> fl g" using fl_mono [OF assms] by (simp only: r47)
  have g0: "0 \<le> fl g" using g pow2_nonneg [of "- 47"] by linarith
  have "pow2 (- 47) * (1 / 32) \<le> fl g * fl DECAY_RATE"
    using g decay_rate_lower g0 by (intro mult_mono) simp_all
  moreover have "pow2 (- 47) * (1 / 32) = pow2 (- 52)" by (simp add: pow2_eval)
  ultimately have "pow2 (- 52) \<le> fl g * fl DECAY_RATE" by simp
  then have "fl (pow2 (- 52)) \<le> fl (fl g * fl DECAY_RATE)" by (rule fl_mono)
  then show ?thesis by (simp only: r52)
qed

lemma pow2_53_52: "pow2 (- 53) < pow2 (- 52)"
  by simp

lemma decay64_moves:
  assumes c: "is_double c" and b: "is_double b"
    and cu: "0 \<le> c \<and> c \<le> 1" and bu: "0 \<le> b \<and> b \<le> 1"
    and far: "1 / 2 ^ 47 \<le> \<bar>b - c\<bar>"
  shows "fl (c + fl (fl (b - c) * fl DECAY_RATE)) \<noteq> c"
proof -
  have far': "pow2 (- 47) \<le> \<bar>b - c\<bar>" using far by (simp add: pow2_eval)
  have fc: "fl c = c" and fb: "fl b = b" using c b by (simp_all add: is_double_def)
  show ?thesis
  proof (cases "c \<le> b")
    case True
    let ?t = "fl (fl (b - c) * fl DECAY_RATE)"
    have lo: "pow2 (- 52) \<le> ?t" using far' True by (intro decay_increment_lower) simp
    note t = decay_increment [OF fc fb True]
    have "\<bar>c + ?t\<bar> \<le> 1" using t cu bu by linarith
    moreover have "pow2 (- 53) < \<bar>c + ?t - c\<bar>" using lo pow2_53_52 by linarith
    ultimately show ?thesis by (rule fl_moves)
  next
    case False
    then have le: "b \<le> c" by simp
    let ?t = "fl (fl (c - b) * fl DECAY_RATE)"
    have lo: "pow2 (- 52) \<le> ?t" using far' le by (intro decay_increment_lower) simp
    note t = decay_increment [OF fb fc le]
    have "fl (b - c) = - fl (c - b)" using fl_minus [of "c - b"] by simp
    then have e: "fl (fl (b - c) * fl DECAY_RATE) = - ?t"
      using fl_minus [of "fl (c - b) * fl DECAY_RATE"] by simp
    have "\<bar>c + - ?t\<bar> \<le> 1" using t cu bu le by linarith
    moreover have "pow2 (- 53) < \<bar>c + - ?t - c\<bar>" using lo pow2_53_52 by linarith
    ultimately have "fl (c + - ?t) \<noteq> c" by (rule fl_moves)
    then show ?thesis unfolding e .
  qed
qed

lemma decay64_moves_vec:
  assumes "unit_doubles c" and "unit_doubles b"
    and "vmap2 (\<lambda>c b. fl (c + fl (fl (b - c) * fl 0.06))) c b = c"
  shows "vall2 (\<lambda>c b. \<bar>b - c\<bar> < 1 / 2 ^ 47) c b"
proof -
  obtain c0 c1 c2 c3 c4 where c: "c = Vec5 c0 c1 c2 c3 c4" by (cases c)
  obtain b0 b1 b2 b3 b4 where b: "b = Vec5 b0 b1 b2 b3 b4" by (cases b)
  have d: "is_double c0" "is_double c1" "is_double c2" "is_double c3" "is_double c4"
    "is_double b0" "is_double b1" "is_double b2" "is_double b3" "is_double b4"
    using assms(1,2) by (simp_all add: unit_doubles_def c b)
  have u: "0 \<le> c0 \<and> c0 \<le> 1" "0 \<le> c1 \<and> c1 \<le> 1" "0 \<le> c2 \<and> c2 \<le> 1"
    "0 \<le> c3 \<and> c3 \<le> 1" "0 \<le> c4 \<and> c4 \<le> 1"
    "0 \<le> b0 \<and> b0 \<le> 1" "0 \<le> b1 \<and> b1 \<le> 1" "0 \<le> b2 \<and> b2 \<le> 1"
    "0 \<le> b3 \<and> b3 \<le> 1" "0 \<le> b4 \<and> b4 \<le> 1"
    using assms(1,2) by (simp_all add: unit_doubles_def in_unit_def c b)
  have step: "is_double x \<Longrightarrow> is_double y \<Longrightarrow> 0 \<le> x \<and> x \<le> 1 \<Longrightarrow> 0 \<le> y \<and> y \<le> 1 \<Longrightarrow>
      fl (x + fl (fl (y - x) * fl 0.06)) = x \<Longrightarrow> \<bar>y - x\<bar> < 1 / 2 ^ 47" for x y
    using decay64_moves [of x y] by (auto simp: DECAY_RATE_def not_le [symmetric])
  have e: "fl (c0 + fl (fl (b0 - c0) * fl 0.06)) = c0" "fl (c1 + fl (fl (b1 - c1) * fl 0.06)) = c1"
    "fl (c2 + fl (fl (b2 - c2) * fl 0.06)) = c2" "fl (c3 + fl (fl (b3 - c3) * fl 0.06)) = c3"
    "fl (c4 + fl (fl (b4 - c4) * fl 0.06)) = c4"
    using assms(3) unfolding c b by (simp_all only: vmap2.simps vec5.inject)
  note r = step [OF d(1) d(6) u(1) u(6) e(1)] step [OF d(2) d(7) u(2) u(7) e(2)]
    step [OF d(3) d(8) u(3) u(8) e(3)] step [OF d(4) d(9) u(4) u(9) e(4)]
    step [OF d(5) d(10) u(5) u(10) e(5)]
  show ?thesis unfolding c b using r by (simp only: vall2.simps simp_thms)
qed

text \<open>
  Claim C4, amended. Once the hold has expired, with \<open>current\<close> and the baseline \<open>b\<close> doubles
  in the unit cube, ticks leave the baseline alone and each tick replaces every component
  \<open>c\<close> of \<open>current\<close> by \<open>c + 0.06 * (b - c)\<close> computed in double precision, that is by
  \<open>fl (c + fl (fl (b - c) * fl 0.06))\<close>, and returns the new \<open>current\<close>. The new value lies
  between \<open>c\<close> and \<open>b\<close>, ends included: the sequence approaches \<open>b\<close> monotonically and never
  overshoots it. A converged blender (\<open>current = baseline\<close>) stays as it is, and a tick
  returns the value it started from only if every component of \<open>current\<close> is within
  \<open>2 ^ - 47\<close> of the baseline. One tick from 0.9 toward 0.5 gives the double 0.876.
\<close>

theorem decay_recurrence64:
  assumes "\<forall>t\<in>set nows. hold_until s \<le> t" and "hold_until s \<le> now"
    and "unit_doubles (current s)" and "unit_doubles (baseline s)"
  shows "baseline (ticks64 s nows) = baseline s
    \<and> unit_doubles (current (ticks64 s nows))
    \<and> current (snd (tick64 (ticks64 s nows) now)) =
        vmap2 (\<lambda>c b. fl (c + fl (fl (b - c) * fl 0.06))) (current (ticks64 s nows)) (baseline s)
    \<and> fst (tick64 (ticks64 s nows) now) = tolist (current (snd (tick64 (ticks64 s nows) now)))
    \<and> baseline (snd (tick64 (ticks64 s nows) now)) = baseline s
    \<and> vall3 toward (baseline s) (current (ticks64 s nows))
         (current (snd (tick64 (ticks64 s nows) now)))
    \<and> (current (ticks64 s nows) = baseline s \<longrightarrow>
         current (snd (tick64 (ticks64 s nows) now)) = current (ticks64 s nows))
    \<and> (current (snd (tick64 (ticks64 s nows) now)) = current (ticks64 s nows) \<longrightarrow>
         vall2 (\<lambda>c b. \<bar>b - c\<bar> < 1 / 2 ^ 47) (current (ticks64 s nows)) (baseline s))
    \<and> (baseline s = Vec5 0.5 0.5 0.5 0.5 0.5
         \<and> current s = Vec5 (fl 0.9) (fl 0.9) (fl 0.9) (fl 0.9) (fl 0.9) \<longrightarrow>
         fst (tick64 s now) = [fl 0.876, fl 0.876, fl 0.876, fl 0.876, fl 0.876])"
proof -
  let ?sn = "ticks64 s nows"
  note inv = ticks64_decay [OF assms(1,3,4)]
  have f: "baseline ?sn = baseline s" "hold_until ?sn = hold_until s"
    and u: "unit_doubles (current ?sn)"
    using inv by simp_all
  have h: "hold_until ?sn \<le> now" using f assms(2) by simp
  note t = tick64_decay [OF h]
  have c1: "current (snd (tick64 ?sn now)) =
      vmap2 (\<lambda>c b. fl (c + fl (fl (b - c) * fl 0.06))) (current ?sn) (baseline s)"
    by (simp add: t f)
  have c2: "vall3 toward (baseline s) (current ?sn) (current (snd (tick64 ?sn now)))"
    unfolding c1 by (rule decay64_vec(1) [OF u assms(4)])
  have c3: "current ?sn = baseline s \<longrightarrow> current (snd (tick64 ?sn now)) = current ?sn"
  proof
    assume e: "current ?sn = baseline s"
    obtain b0 b1 b2 b3 b4 where b: "baseline s = Vec5 b0 b1 b2 b3 b4" by (cases "baseline s")
    have "fl b0 = b0" "fl b1 = b1" "fl b2 = b2" "fl b3 = b3" "fl b4 = b4"
      using assms(4) by (simp_all add: unit_doubles_def b is_double_def)
    then show "current (snd (tick64 ?sn now)) = current ?sn"
      unfolding c1 e b by simp
  qed
  have c5: "current (snd (tick64 ?sn now)) = current ?sn \<longrightarrow>
         vall2 (\<lambda>c b. \<bar>b - c\<bar> < 1 / 2 ^ 47) (current ?sn) (baseline s)"
  proof
    assume "current (snd (tick64 ?sn now)) = current ?sn"
    then have "vmap2 (\<lambda>c b. fl (c + fl (fl (b - c) * fl 0.06))) (current ?sn) (baseline s)
        = current ?sn" by (simp only: c1)
    then show "vall2 (\<lambda>c b. \<bar>b - c\<bar> < 1 / 2 ^ 47) (current ?sn) (baseline s)"
      by (rule decay64_moves_vec [OF u assms(4)])
  qed
  have c4: "baseline s = Vec5 0.5 0.5 0.5 0.5 0.5
         \<and> current s = Vec5 (fl 0.9) (fl 0.9) (fl 0.9) (fl 0.9) (fl 0.9) \<longrightarrow>
         fst (tick64 s now) = [fl 0.876, fl 0.876, fl 0.876, fl 0.876, fl 0.876]"
  proof
    assume a: "baseline s = Vec5 0.5 0.5 0.5 0.5 0.5
         \<and> current s = Vec5 (fl 0.9) (fl 0.9) (fl 0.9) (fl 0.9) (fl 0.9)"
    have "fst (tick64 s now) = tolist (vmap2 (\<lambda>c b. fl (c + fl (fl (b - c) * fl 0.06)))
        (Vec5 (fl 0.9) (fl 0.9) (fl 0.9) (fl 0.9) (fl 0.9)) (Vec5 0.5 0.5 0.5 0.5 0.5))"
      using a by (simp only: tick64_decay [OF assms(2)] fst_conv)
    then show "fst (tick64 s now) = [fl 0.876, fl 0.876, fl 0.876, fl 0.876, fl 0.876]"
      by (simp only: vmap2.simps tolist.simps decay09)
  qed
  show ?thesis
    using f(1) u c1 c2 c3 c4 c5 by (simp add: t)
qed

lemma unit_doubles_halves: "unit_doubles (Vec5 0.5 0.5 0.5 0.5 0.5)"
  by (simp add: unit_doubles_def is_double_def in_unit_def)

lemma unit_doubles_09: "unit_doubles (Vec5 (fl 0.9) (fl 0.9) (fl 0.9) (fl 0.9) (fl 0.9))"
  using fl_unit [of "0.9"] by (simp add: unit_doubles_def is_double_def in_unit_def)

theorem decay_recurrence64_witness:
  "hold_until \<lparr>baseline = Vec5 0.5 0.5 0.5 0.5 0.5,
       current = Vec5 (fl 0.9) (fl 0.9) (fl 0.9) (fl 0.9) (fl 0.9),
       hold_until = 2, last_baseline_update = 0, dwell_until = 1.2\<rparr> \<le> 5
   \<and> unit_doubles (Vec5 (fl 0.9) (fl 0.9) (fl 0.9) (fl 0.9) (fl 0.9))
   \<and> unit_doubles (Vec5 0.5 0.5 0.5 0.5 0.5)
   \<and> fst (tick64 \<lparr>baseline = Vec5 0.5 0.5 0.5 0.5 0.5,
       current = Vec5 (fl 0.9) (fl 0.9) (fl 0.9) (fl 0.9) (fl 0.9),
       hold_until = 2, last_baseline_update = 0, dwell_until = 1.2\<rparr> 5)
       = [fl 0.876, fl 0.876, fl 0.876, fl 0.876, fl 0.876]
   \<and> current (ticks64 \<lparr>baseline = Vec5 0.5 0.5 0.5 0.5 0.5,
       current = Vec5 (fl 0.9) (fl 0.9) (fl 0.9) (fl 0.9) (fl 0.9),
       hold_until = 2, last_baseline_update = 0, dwell_until = 1.2\<rparr> [5])
       = Vec5 (fl 0.876) (fl 0.876) (fl 0.876) (fl 0.876) (fl 0.876)
   \<and> vall3 toward (Vec5 0.5 0.5 0.5 0.5 0.5)
       (Vec5 (fl 0.876) (fl 0.876) (fl 0.876) (fl 0.876) (fl 0.876))
       (current (snd (tick64 (ticks64 \<lparr>baseline = Vec5 0.5 0.5 0.5 0.5 0.5,
          current = Vec5 (fl 0.9) (fl 0.9) (fl 0.9) (fl 0.9) (fl 0.9),
          hold_until = 2, last_baseline_update = 0, dwell_until = 1.2\<rparr> [5]) 6)))
   \<and> current (snd (tick64 \<lparr>baseline = Vec5 0.5 0.5 0.5 0.5 0.5,
       current = Vec5 0.5 0.5 0.5 0.5 0.5,
       hold_until = 2, last_baseline_update = 0, dwell_until = 1.2\<rparr> 5))
       = Vec5 0.5 0.5 0.5 0.5 0.5
   \<and> vall2 (\<lambda>c b. \<bar>b - c\<bar> < 1 / 2 ^ 47) (Vec5 0.5 0.5 0.5 0.5 0.5) (Vec5 0.5 0.5 0.5 0.5 0.5)"
proof -
  let ?s = "\<lparr>baseline = Vec5 0.5 0.5 0.5 0.5 0.5,
       current = Vec5 (fl 0.9) (fl 0.9) (fl 0.9) (fl 0.9) (fl 0.9),
       hold_until = 2, last_baseline_update = 0, dwell_until = 1.2\<rparr>"
  have h5: "hold_until ?s \<le> 5" and h6: "hold_until ?s \<le> 6"
    and hs: "\<forall>t\<in>set [5]. hold_until ?s \<le> t" and h0: "\<forall>t\<in>set []. hold_until ?s \<le> t"
    by simp_all
  have uc: "unit_doubles (current ?s)" using unit_doubles_09 by simp
  have ub: "unit_doubles (baseline ?s)" using unit_doubles_halves by simp
  have bs: "baseline ?s = Vec5 0.5 0.5 0.5 0.5 0.5
      \<and> current ?s = Vec5 (fl 0.9) (fl 0.9) (fl 0.9) (fl 0.9) (fl 0.9)" by simp
  from decay_recurrence64 [OF h0 h5 uc ub] bs
  have one: "fst (tick64 ?s 5) = [fl 0.876, fl 0.876, fl 0.876, fl 0.876, fl 0.876]" by blast
  from decay_recurrence64 [OF h0 h5 uc ub]
  have "fst (tick64 (ticks64 ?s []) 5) = tolist (current (snd (tick64 (ticks64 ?s []) 5)))" by blast
  then have "tolist (current (snd (tick64 ?s 5))) = [fl 0.876, fl 0.876, fl 0.876, fl 0.876, fl 0.876]"
    using one by simp
  then have cur: "current (ticks64 ?s [5]) = Vec5 (fl 0.876) (fl 0.876) (fl 0.876) (fl 0.876) (fl 0.876)"
    by (cases "current (snd (tick64 ?s 5))") simp
  from decay_recurrence64 [OF hs h6 uc ub]
  have "vall3 toward (baseline ?s) (current (ticks64 ?s [5]))
      (current (snd (tick64 (ticks64 ?s [5]) 6)))" by blast
  then have tw: "vall3 toward (Vec5 0.5 0.5 0.5 0.5 0.5)
      (Vec5 (fl 0.876) (fl 0.876) (fl 0.876) (fl 0.876) (fl 0.876))
      (current (snd (tick64 (ticks64 ?s [5]) 6)))"
    by (simp only: cur) simp
  let ?r = "\<lparr>baseline = Vec5 0.5 0.5 0.5 0.5 0.5, current = Vec5 0.5 0.5 0.5 0.5 0.5,
       hold_until = 2, last_baseline_update = 0, dwell_until = 1.2\<rparr>"
  have r0: "\<forall>t\<in>set []. hold_until ?r \<le> t" and r5: "hold_until ?r \<le> 5" by simp_all
  have rc: "unit_doubles (current ?r)" and rb: "unit_doubles (baseline ?r)"
    using unit_doubles_halves by simp_all
  have conv: "current (ticks64 ?r []) = baseline ?r" by simp
  note tr = decay_recurrence64 [OF r0 r5 rc rb]
  from conv tr have same: "current (snd (tick64 (ticks64 ?r []) 5)) = current (ticks64 ?r [])"
    by blast
  from same tr
  have "vall2 (\<lambda>c b. \<bar>b - c\<bar> < 1 / 2 ^ 47) (current (ticks64 ?r [])) (baseline ?r)" by blast
  then have near: "vall2 (\<lambda>c b. \<bar>b - c\<bar> < 1 / 2 ^ 47)
      (Vec5 0.5 0.5 0.5 0.5 0.5) (Vec5 0.5 0.5 0.5 0.5 0.5)" by simp
  from same have rest: "current (snd (tick64 ?r 5)) = Vec5 0.5 0.5 0.5 0.5 0.5" by simp
  show ?thesis
    using h5 unit_doubles_09 unit_doubles_halves one cur tw rest near by blast
qed

lemma fl_08_unit: "0 \<le> fl 0.8 \<and> fl 0.8 \<le> 1"
  by (rule fl_unit) simp_all

lemma stall_state:
  "baseline (apply_burst64 (blender_init64 0) 0
      (Vec5 (562949953421313 / 2 ^ 50) (562949953421313 / 2 ^ 50) (562949953421313 / 2 ^ 50)
            (562949953421313 / 2 ^ 50) (fl 0.8)) (Some 0))
     = Vec5 0.5 0.5 0.5 0.5 (fl 0.8)"
  "current (apply_burst64 (blender_init64 0) 0
      (Vec5 (562949953421313 / 2 ^ 50) (562949953421313 / 2 ^ 50) (562949953421313 / 2 ^ 50)
            (562949953421313 / 2 ^ 50) (fl 0.8)) (Some 0))
     = Vec5 (562949953421313 / 2 ^ 50) (562949953421313 / 2 ^ 50) (562949953421313 / 2 ^ 50)
            (562949953421313 / 2 ^ 50) (fl 0.8)"
  "hold_until (apply_burst64 (blender_init64 0) 0
      (Vec5 (562949953421313 / 2 ^ 50) (562949953421313 / 2 ^ 50) (562949953421313 / 2 ^ 50)
            (562949953421313 / 2 ^ 50) (fl 0.8)) (Some 0)) \<le> 5"
proof -
  let ?v = "Vec5 (562949953421313 / 2 ^ 50) (562949953421313 / 2 ^ 50) (562949953421313 / 2 ^ 50)
            (562949953421313 / 2 ^ 50) (fl 0.8)"
  show "baseline (apply_burst64 (blender_init64 0) 0 ?v (Some 0)) = Vec5 0.5 0.5 0.5 0.5 (fl 0.8)"
    using fl_08_unit
    by (simp add: apply_burst64_def Let_def blender_init64_def f64_defs vclip_def clip_def)
  show "current (apply_burst64 (blender_init64 0) 0 ?v (Some 0)) = ?v"
    by (simp add: apply_burst64_def Let_def)
  have "fl 1.2 \<le> fl 2" and "fl 0.8 \<le> fl 1" by (rule fl_mono, simp)+
  then have "fl 1.2 + fl 0.8 \<le> 3" by (simp add: fl_numeral_small)
  then have "fl (fl 1.2 + fl 0.8) \<le> fl 3" by (rule fl_mono)
  then show "hold_until (apply_burst64 (blender_init64 0) 0 ?v (Some 0)) \<le> 5"
    by (simp add: apply_burst64_def Let_def f64_defs DWELL_SECONDS_def HOLD_SECONDS_def
        fl_numeral_small)
qed

text \<open>
  Claim C4 as stated fails in its "only if": a tick can return the value it started from
  without being converged. With the baseline at 0.5 and \<open>current\<close> at the double
  \<open>0.5 + 2 ^ - 50\<close> (0.5000000000000009), the step \<open>0.06 * (b - c)\<close> is less than half the
  distance to the next double below, and the sum rounds back to \<open>current\<close>.
\<close>

theorem decay_stall_counterexample:
  "fst (tick64 (apply_burst64 (blender_init64 0) 0
      (Vec5 (562949953421313 / 2 ^ 50) (562949953421313 / 2 ^ 50) (562949953421313 / 2 ^ 50)
            (562949953421313 / 2 ^ 50) (fl 0.8)) (Some 0)) 5)
     = tolist (current (apply_burst64 (blender_init64 0) 0
      (Vec5 (562949953421313 / 2 ^ 50) (562949953421313 / 2 ^ 50) (562949953421313 / 2 ^ 50)
            (562949953421313 / 2 ^ 50) (fl 0.8)) (Some 0)))
   \<and> current (snd (tick64 (apply_burst64 (blender_init64 0) 0
      (Vec5 (562949953421313 / 2 ^ 50) (562949953421313 / 2 ^ 50) (562949953421313 / 2 ^ 50)
            (562949953421313 / 2 ^ 50) (fl 0.8)) (Some 0)) 5))
     = current (apply_burst64 (blender_init64 0) 0
      (Vec5 (562949953421313 / 2 ^ 50) (562949953421313 / 2 ^ 50) (562949953421313 / 2 ^ 50)
            (562949953421313 / 2 ^ 50) (fl 0.8)) (Some 0))
   \<and> current (apply_burst64 (blender_init64 0) 0
      (Vec5 (562949953421313 / 2 ^ 50) (562949953421313 / 2 ^ 50) (562949953421313 / 2 ^ 50)
            (562949953421313 / 2 ^ 50) (fl 0.8)) (Some 0))
     \<noteq> baseline (apply_burst64 (blender_init64 0) 0
      (Vec5 (562949953421313 / 2 ^ 50) (562949953421313 / 2 ^ 50) (562949953421313 / 2 ^ 50)
            (562949953421313 / 2 ^ 50) (fl 0.8)) (Some 0))"
proof -
  let ?v = "Vec5 (562949953421313 / 2 ^ 50) (562949953421313 / 2 ^ 50) (562949953421313 / 2 ^ 50)
            (562949953421313 / 2 ^ 50) (fl 0.8)"
  let ?s = "apply_burst64 (blender_init64 0) 0 ?v (Some 0)"
  note st = stall_state
  have fixed: "fl (fl 0.8 + fl (fl (fl 0.8 - fl 0.8) * fl 0.06)) = fl 0.8" by simp
  have step: "vmap2 (\<lambda>c b. fl (c + fl (fl (b - c) * fl 0.06))) ?v (Vec5 0.5 0.5 0.5 0.5 (fl 0.8)) = ?v"
    by (simp only: vmap2.simps stall fixed)
  have t: "tick64 ?s 5 = (tolist ?v, ?s\<lparr>current := ?v\<rparr>)"
    using tick64_decay [OF st(3)] by (simp only: st(1,2) step)
  have ne: "current ?s \<noteq> baseline ?s" unfolding st(1,2) by simp
  have a1: "fst (tick64 ?s 5) = tolist (current ?s)" by (simp only: t fst_conv st(2))
  have "current (snd (tick64 ?s 5)) = ?v" unfolding t by simp
  then have a2: "current (snd (tick64 ?s 5)) = current ?s" by (simp only: st(2))
  from a1 a2 ne show ?thesis by blast
qed

subsection \<open>Bursts\<close>

lemma apply_burst_baseline:
  "baseline (apply_burst s now v influence) =
     vmap2 (\<lambda>b x. min 1 (max (b + (case influence of Some a \<Rightarrow> a | None \<Rightarrow> 0.22) * (x - b)) 0))
       (baseline s) v"
  by (cases "baseline s"; cases v; cases influence)
     (simp_all add: apply_burst_def Let_def vec_defs blender_consts mult.commute)

lemma apply_burst64_current: "current (apply_burst64 s now v influence) = v"
  by (simp add: apply_burst64_def Let_def)

lemma apply_burst64_baseline:
  "baseline (apply_burst64 s now v influence) =
     vmap2 (\<lambda>b x. min 1 (max (fl (b + fl (fl (x - b)
              * (case influence of Some a \<Rightarrow> a | None \<Rightarrow> fl 0.22)))) 0)) (baseline s) v"
  by (cases "baseline s"; cases v; cases influence)
     (simp_all add: apply_burst64_def Let_def f64_defs vclip_def clip_def DEFAULT_INFLUENCE_def)

lemma burst09: "min 1 (max (fl (0.5 + fl (fl (fl 0.9 - 0.5) * fl 0.22))) 0) = fl 0.588"
  by (simp only: fl_09 fl_022 burst09_sub burst09_mul burst09_add fl_0588) simp

lemma burst08: "min 1 (max (fl (0.5 + fl (fl (fl 0.8 - 0.5) * fl 0.22))) 0) = fl 0.566 + 1 / 2 ^ 53"
  by (simp only: fl_08 fl_022 burst08_sub burst08_mul burst08_add fl_0566) simp

lemma burst02: "min 1 (max (fl (0.5 + fl (fl (fl 0.2 - 0.5) * fl 0.22))) 0) = fl 0.434"
  by (simp only: fl_02 fl_022 burst02_sub burst02_mul burst02_add fl_0434) simp

lemma burst05: "min 1 (max (fl (0.5 + fl (fl (0.5 - 0.5) * fl 0.22))) 0) = 0.5"
  by simp

lemma full01: "min 1 (max (fl (0.5 + fl (fl (fl 0.1 - 0.5) * 1))) 0) = 900719925474099 / 2 ^ 53"
  by (simp only: fl_01 full01_sub full01_mul full01_add) simp

lemma full01_differs: "900719925474099 / 2 ^ 53 \<noteq> fl 0.1"
  by (simp only: fl_01) simp

lemma full_influence_close:
  assumes x: "0 \<le> x \<and> x \<le> 1" and b: "0 \<le> b \<and> b \<le> 1"
  shows "\<bar>min 1 (max (fl (b + fl (fl (x - b) * 1))) 0) - x\<bar> \<le> 1 / 2 ^ 51"
proof -
  define u where "u = pow2 (- 53)"
  define w where "w = pow2 (- 1075)"
  have u: "u = 1 / 2 ^ 53" and w: "w = 1 / 2 ^ 1075" by (simp_all add: u_def w_def pow2_eval)
  have wu: "2 * w \<le> u" unfolding u w by simp
  have u0: "0 \<le> u" by (simp add: u_def)
  let ?x1 = "fl (x - b)"
  have "\<bar>?x1 - (x - b)\<bar> \<le> u * \<bar>x - b\<bar> + w" unfolding u_def w_def by (rule fl_error_rel)
  moreover have "u * \<bar>x - b\<bar> \<le> u * 1" using x b by (intro mult_left_mono u0) (simp add: abs_if)
  ultimately have e1: "\<bar>?x1 - (x - b)\<bar> \<le> u + w" by simp
  have x2: "fl (?x1 * 1) = ?x1" by simp
  let ?y = "b + ?x1"
  have y: "\<bar>?y\<bar> \<le> 2" using e1 x b u w by (simp add: abs_if split: if_splits)
  have "\<bar>fl ?y - ?y\<bar> \<le> u * \<bar>?y\<bar> + w" unfolding u_def w_def by (rule fl_error_rel)
  moreover have "u * \<bar>?y\<bar> \<le> u * 2" by (rule mult_left_mono [OF y u0])
  ultimately have e2: "\<bar>fl ?y - ?y\<bar> \<le> 2 * u + w" by simp
  have "\<bar>fl ?y - x\<bar> \<le> 3 * u + 2 * w" using e1 e2 by (simp add: abs_if split: if_splits)
  then have "\<bar>fl ?y - x\<bar> \<le> 4 * u" using wu by linarith
  then have "\<bar>min 1 (max (fl ?y) 0) - x\<bar> \<le> 4 * u"
    using x by (simp add: min_def max_def abs_if split: if_splits)
  moreover have "4 * u = 1 / 2 ^ 51" unfolding u by simp
  ultimately show ?thesis by (simp only: x2)
qed

text \<open>
  Claim C2, amended. For every vector \<open>v\<close> and every influence, \<open>apply_burst\<close> sets
  \<open>current\<close> to \<open>v\<close> and the baseline to \<open>clip(baseline + (v - baseline) * influence, 0, 1)\<close>
  computed in double precision, with the double of 0.22 for the influence when none is
  given. With influence 1 and \<open>v\<close> and the baseline in the unit cube, the new baseline is
  within \<open>2 ^ - 51\<close> of \<open>v\<close> in every dimension. From the baseline
  (0.5, 0.5, 0.5, 0.5, 0.5), the burst (0.9, 0.8, 0.2, 0.5, 0.8) with the default influence
  gives the doubles 0.588, 0.5660000000000001 (the double next above 0.566), 0.434, 0.5 and
  0.5660000000000001.
\<close>

theorem apply_burst_effect64:
  "current (apply_burst64 s now v influence) = v
   \<and> baseline (apply_burst64 s now v (Some a)) =
       vmap2 (\<lambda>b x. min 1 (max (fl (b + fl (fl (x - b) * a))) 0)) (baseline s) v
   \<and> baseline (apply_burst64 s now v None) =
       vmap2 (\<lambda>b x. min 1 (max (fl (b + fl (fl (x - b) * fl 0.22))) 0)) (baseline s) v
   \<and> (in_unit v \<and> in_unit (baseline s) \<longrightarrow>
        vall2 (\<lambda>y x. \<bar>y - x\<bar> \<le> 1 / 2 ^ 51) (baseline (apply_burst64 s now v (Some 1))) v)
   \<and> (baseline s = Vec5 0.5 0.5 0.5 0.5 0.5 \<longrightarrow>
        baseline (apply_burst64 s now (Vec5 (fl 0.9) (fl 0.8) (fl 0.2) 0.5 (fl 0.8)) None) =
          Vec5 (fl 0.588) (fl 0.566 + 1 / 2 ^ 53) (fl 0.434) 0.5 (fl 0.566 + 1 / 2 ^ 53))"
proof -
  have full: "in_unit v \<and> in_unit (baseline s) \<longrightarrow>
        vall2 (\<lambda>y x. \<bar>y - x\<bar> \<le> 1 / 2 ^ 51) (baseline (apply_burst64 s now v (Some 1))) v"
  proof
    assume a: "in_unit v \<and> in_unit (baseline s)"
    obtain v0 v1 v2 v3 v4 where v: "v = Vec5 v0 v1 v2 v3 v4" by (cases v)
    obtain b0 b1 b2 b3 b4 where b: "baseline s = Vec5 b0 b1 b2 b3 b4" by (cases "baseline s")
    have r: "0 \<le> v0 \<and> v0 \<le> 1" "0 \<le> v1 \<and> v1 \<le> 1" "0 \<le> v2 \<and> v2 \<le> 1"
      "0 \<le> v3 \<and> v3 \<le> 1" "0 \<le> v4 \<and> v4 \<le> 1"
      "0 \<le> b0 \<and> b0 \<le> 1" "0 \<le> b1 \<and> b1 \<le> 1" "0 \<le> b2 \<and> b2 \<le> 1"
      "0 \<le> b3 \<and> b3 \<le> 1" "0 \<le> b4 \<and> b4 \<le> 1"
      using a by (simp_all add: in_unit_def v b)
    note c = full_influence_close [OF r(1) r(6)] full_influence_close [OF r(2) r(7)]
      full_influence_close [OF r(3) r(8)] full_influence_close [OF r(4) r(9)]
      full_influence_close [OF r(5) r(10)]
    show "vall2 (\<lambda>y x. \<bar>y - x\<bar> \<le> 1 / 2 ^ 51) (baseline (apply_burst64 s now v (Some 1))) v"
      unfolding apply_burst64_baseline v b using c
      by (simp only: vmap2.simps vall2.simps option.case simp_thms)
  qed
  have scen: "baseline s = Vec5 0.5 0.5 0.5 0.5 0.5 \<longrightarrow>
        baseline (apply_burst64 s now (Vec5 (fl 0.9) (fl 0.8) (fl 0.2) 0.5 (fl 0.8)) None) =
          Vec5 (fl 0.588) (fl 0.566 + 1 / 2 ^ 53) (fl 0.434) 0.5 (fl 0.566 + 1 / 2 ^ 53)"
  proof
    assume b: "baseline s = Vec5 0.5 0.5 0.5 0.5 0.5"
    show "baseline (apply_burst64 s now (Vec5 (fl 0.9) (fl 0.8) (fl 0.2) 0.5 (fl 0.8)) None) =
          Vec5 (fl 0.588) (fl 0.566 + 1 / 2 ^ 53) (fl 0.434) 0.5 (fl 0.566 + 1 / 2 ^ 53)"
      unfolding apply_burst64_baseline b
      by (simp only: vmap2.simps option.case burst09 burst08 burst02 burst05)
  qed
  show ?thesis
    using full scen by (simp add: apply_burst64_current apply_burst64_baseline)
qed

theorem apply_burst_effect64_witness:
  "in_unit (Vec5 (fl 0.1) 0.5 0.5 0.5 0.5)
   \<and> in_unit (baseline (blender_init64 0))
   \<and> vall2 (\<lambda>y x. \<bar>y - x\<bar> \<le> 1 / 2 ^ 51)
        (baseline (apply_burst64 (blender_init64 0) 7 (Vec5 (fl 0.1) 0.5 0.5 0.5 0.5) (Some 1)))
        (Vec5 (fl 0.1) 0.5 0.5 0.5 0.5)
   \<and> baseline (blender_init64 0\<lparr>baseline := Vec5 0.5 0.5 0.5 0.5 0.5\<rparr>) = Vec5 0.5 0.5 0.5 0.5 0.5
   \<and> baseline (apply_burst64 (blender_init64 0\<lparr>baseline := Vec5 0.5 0.5 0.5 0.5 0.5\<rparr>) 7
        (Vec5 (fl 0.9) (fl 0.8) (fl 0.2) 0.5 (fl 0.8)) None)
       = Vec5 (fl 0.588) (fl 0.566 + 1 / 2 ^ 53) (fl 0.434) 0.5 (fl 0.566 + 1 / 2 ^ 53)"
proof -
  let ?v = "Vec5 (fl 0.1) 0.5 0.5 0.5 0.5"
  let ?s = "blender_init64 0\<lparr>baseline := Vec5 0.5 0.5 0.5 0.5 0.5\<rparr>"
  have u: "in_unit ?v" using fl_unit [of "0.1"] by (simp add: in_unit_def)
  have ub: "in_unit (baseline (blender_init64 0))"
    using fl_08_unit by (simp add: in_unit_def blender_init64_def)
  have b: "baseline ?s = Vec5 0.5 0.5 0.5 0.5 0.5" by simp
  from u ub apply_burst_effect64 [where s = "blender_init64 0" and now = 7 and v = ?v]
  have c: "vall2 (\<lambda>y x. \<bar>y - x\<bar> \<le> 1 / 2 ^ 51)
      (baseline (apply_burst64 (blender_init64 0) 7 ?v (Some 1))) ?v" by blast
  from b apply_burst_effect64 [where s = ?s and now = 7]
  have d: "baseline (apply_burst64 ?s 7 (Vec5 (fl 0.9) (fl 0.8) (fl 0.2) 0.5 (fl 0.8)) None)
      = Vec5 (fl 0.588) (fl 0.566 + 1 / 2 ^ 53) (fl 0.434) 0.5 (fl 0.566 + 1 / 2 ^ 53)" by blast
  from u ub c b d show ?thesis by blast
qed

lemma blender_init64_baseline: "baseline (blender_init64 t) = Vec5 0.5 0.5 0.5 0.5 (fl 0.8)"
  by (simp add: blender_init64_def)

text \<open>
  Claim C2 as stated fails in three places. With influence 1 the burst
  (2, 0.5, 0.5, 0.5, 0.5) leaves the baseline clipped, not at the burst. With influence 1
  the burst (0.1, 0.5, 0.5, 0.5, 0.5), inside the unit cube, leaves the first component of
  a baseline that was 0.5 at 0.09999999999999998, not at the double 0.1, because
  \<open>0.1 - 0.5\<close> is rounded. And the scenario of the claim does not end at the double 0.566
  in its second and fifth components.
\<close>

theorem apply_burst_exact_counterexample:
  "baseline (apply_burst64 (blender_init64 0) 0 (Vec5 2 0.5 0.5 0.5 0.5) (Some 1))
     \<noteq> Vec5 2 0.5 0.5 0.5 0.5
   \<and> in_unit (Vec5 (fl 0.1) 0.5 0.5 0.5 0.5)
   \<and> baseline (apply_burst64 (blender_init64 0) 0 (Vec5 (fl 0.1) 0.5 0.5 0.5 0.5) (Some 1))
     \<noteq> Vec5 (fl 0.1) 0.5 0.5 0.5 0.5
   \<and> baseline (apply_burst64 (blender_init64 0\<lparr>baseline := Vec5 0.5 0.5 0.5 0.5 0.5\<rparr>) 0
        (Vec5 (fl 0.9) (fl 0.8) (fl 0.2) 0.5 (fl 0.8)) None)
     \<noteq> Vec5 (fl 0.588) (fl 0.566) (fl 0.434) 0.5 (fl 0.566)"
proof -
  have "min 1 (max (fl (0.5 + fl (fl (2 - 0.5) * 1))) 0) \<noteq> (2::real)" by simp
  then have c1: "baseline (apply_burst64 (blender_init64 0) 0 (Vec5 2 0.5 0.5 0.5 0.5) (Some 1))
     \<noteq> Vec5 2 0.5 0.5 0.5 0.5"
    unfolding apply_burst64_baseline blender_init64_baseline
    by (simp only: vmap2.simps option.case vec5.inject simp_thms)
  have u: "in_unit (Vec5 (fl 0.1) 0.5 0.5 0.5 0.5)"
    using fl_unit [of "0.1"] by (simp add: in_unit_def)
  have c2: "baseline (apply_burst64 (blender_init64 0) 0 (Vec5 (fl 0.1) 0.5 0.5 0.5 0.5) (Some 1))
     \<noteq> Vec5 (fl 0.1) 0.5 0.5 0.5 0.5"
    unfolding apply_burst64_baseline blender_init64_baseline
    using full01_differs
    by (simp only: vmap2.simps option.case vec5.inject full01 simp_thms)
  have b: "baseline (blender_init64 0\<lparr>baseline := Vec5 0.5 0.5 0.5 0.5 0.5\<rparr>) = Vec5 0.5 0.5 0.5 0.5 0.5"
    by simp
  have "fl 0.566 + 1 / 2 ^ 53 \<noteq> fl 0.566" by simp
  then have c3: "baseline (apply_burst64 (blender_init64 0\<lparr>baseline := Vec5 0.5 0.5 0.5 0.5 0.5\<rparr>) 0
        (Vec5 (fl 0.9) (fl 0.8) (fl 0.2) 0.5 (fl 0.8)) None)
     \<noteq> Vec5 (fl 0.588) (fl 0.566) (fl 0.434) 0.5 (fl 0.566)"
    unfolding apply_burst64_baseline b
    by (simp only: vmap2.simps option.case burst09 burst08 burst02 burst05 vec5.inject simp_thms)
  from c1 u c2 c3 show ?thesis by blast
qed

subsection \<open>The range of the two vectors\<close>

lemma apply_burst_baseline_unit: "in_unit (baseline (apply_burst s now v influence))"
  unfolding apply_burst_baseline
  by (cases "baseline s"; cases v) (simp add: in_unit_def)

lemma apply_baseline_fields:
  "baseline (apply_baseline s now now' v) = baseline (apply_burst s now v (Some BASELINE_INFLUENCE))"
  "current (apply_baseline s now now' v) = v"
  by (simp_all add: apply_baseline_def apply_burst_current)

lemma tick_baseline: "baseline (snd (tick s now)) = baseline s"
  by (simp add: tick_def Let_def)

lemma convex_unit:
  "0 \<le> c \<Longrightarrow> c \<le> 1 \<Longrightarrow> 0 \<le> b \<Longrightarrow> b \<le> 1 \<Longrightarrow>
   0 \<le> c + (b - c) * 0.06 \<and> c + (b - c) * 0.06 \<le> 1" for b c :: real
  by simp argo

lemma tick_current_unit:
  assumes "in_unit (current s)" and "in_unit (baseline s)"
  shows "in_unit (current (snd (tick s now)))"
proof (cases "now < hold_until s")
  case True
  then show ?thesis using assms by (simp add: tick_def)
next
  case False
  obtain c0 c1 c2 c3 c4 where c: "current s = Vec5 c0 c1 c2 c3 c4" by (cases "current s")
  obtain b0 b1 b2 b3 b4 where b: "baseline s = Vec5 b0 b1 b2 b3 b4" by (cases "baseline s")
  have "current (snd (tick s now)) =
      Vec5 (c0 + (b0 - c0) * 0.06) (c1 + (b1 - c1) * 0.06) (c2 + (b2 - c2) * 0.06)
           (c3 + (b3 - c3) * 0.06) (c4 + (b4 - c4) * 0.06)"
    using False by (simp add: tick_def Let_def c b vsub_def vadd_def vscale_def DECAY_RATE_def)
  moreover have "in_unit (Vec5 (c0 + (b0 - c0) * 0.06) (c1 + (b1 - c1) * 0.06)
      (c2 + (b2 - c2) * 0.06) (c3 + (b3 - c3) * 0.06) (c4 + (b4 - c4) * 0.06))"
    using assms unfolding c b in_unit_def vall.simps
    by (intro conjI; (drule (3) convex_unit)?) (simp_all only: convex_unit)
  ultimately show ?thesis by simp
qed

lemma exec_baseline_unit: "in_unit (baseline s) \<Longrightarrow> in_unit (baseline (exec s c))"
  by (cases c) (simp_all add: apply_burst_baseline_unit apply_baseline_fields tick_baseline)

lemma exec_current_unit:
  "in_unit (baseline s) \<Longrightarrow> in_unit (current s) \<Longrightarrow> call_in_unit c \<Longrightarrow> in_unit (current (exec s c))"
  by (cases c) (simp_all add: apply_burst_current apply_baseline_fields tick_current_unit)

lemma run_baseline_unit: "in_unit (baseline s) \<Longrightarrow> in_unit (baseline (run s cs))"
  by (induction cs arbitrary: s) (simp_all add: exec_baseline_unit)

lemma run_current_unit:
  "in_unit (baseline s) \<Longrightarrow> in_unit (current s) \<Longrightarrow> list_all call_in_unit cs \<Longrightarrow>
   in_unit (current (run s cs))"
  by (induction cs arbitrary: s) (simp_all add: exec_baseline_unit exec_current_unit)

lemma init_unit: "in_unit (baseline (blender_init t0))" "in_unit (current (blender_init t0))"
  by (simp_all add: blender_init_def in_unit_def)

text \<open>
  Claim C1, amended. In every state reached from a new blender by any sequence of
  \<open>apply_burst\<close>, \<open>apply_baseline\<close> and \<open>tick\<close> calls, the baseline lies in the unit cube,
  whatever the arguments; \<open>current\<close> lies in the unit cube when every vector handed to
  \<open>apply_burst\<close> and \<open>apply_baseline\<close> does (a burst is stored in \<open>current\<close> as it
  comes, only the baseline is clipped).
\<close>

theorem blender_range_invariant:
  "in_unit (baseline (run (blender_init t0) cs))
   \<and> (list_all call_in_unit cs \<longrightarrow> in_unit (current (run (blender_init t0) cs)))"
  using run_baseline_unit [OF init_unit(1)] run_current_unit [OF init_unit]
  by blast

theorem blender_range_invariant_witness:
  "list_all call_in_unit [ApplyBurst 1 (Vec5 0.9 0.8 0.2 0.5 0.8) None, Tick 5,
      ApplyBaseline 6 6 (Vec5 1 0 0.3 0.5 0.7), Tick 9]
   \<and> in_unit (current (run (blender_init 0) [ApplyBurst 1 (Vec5 0.9 0.8 0.2 0.5 0.8) None, Tick 5,
      ApplyBaseline 6 6 (Vec5 1 0 0.3 0.5 0.7), Tick 9]))
   \<and> in_unit (baseline (run (blender_init 0) [ApplyBurst 1 (Vec5 0.9 0.8 0.2 0.5 0.8) None, Tick 5,
      ApplyBaseline 6 6 (Vec5 1 0 0.3 0.5 0.7), Tick 9]))"
  using blender_range_invariant [where ?t0.0 = 0 and cs = "[ApplyBurst 1 (Vec5 0.9 0.8 0.2 0.5 0.8) None, Tick 5,
      ApplyBaseline 6 6 (Vec5 1 0 0.3 0.5 0.7), Tick 9]"]
  by (simp add: in_unit_def)

text \<open>
  Claim C1 as stated fails: a burst with a component 2 is stored in \<open>current\<close> unclipped.
\<close>

theorem blender_range_counterexample:
  "\<not> in_unit (current (run (blender_init 0) [ApplyBurst 0 (Vec5 2 0.5 0.5 0.5 0.5) None]))"
  by (simp add: apply_burst_current in_unit_def)

subsection \<open>Settle detection\<close>

text \<open>
  Claim C8. The state is settled exactly when \<open>|current[i] - baseline[i]|\<close> is below 0.02
  in each of the five dimensions; a dimension at distance 0.021 makes it unsettled.
\<close>

theorem settle_detection:
  "settled b = (\<forall>i<5. \<bar>vnth (current b) i - vnth (baseline b) i\<bar> < 0.02)
   \<and> ((\<exists>i<5. \<bar>vnth (current b) i - vnth (baseline b) i\<bar> = 0.021) \<longrightarrow> \<not> settled b)"
proof -
  have iff: "settled b = (\<forall>i<5. \<bar>vnth (current b) i - vnth (baseline b) i\<bar> < 0.02)"
    unfolding all_less_5
    by (cases "current b"; cases "baseline b")
       (simp add: settled_def has_settled_to_baseline_def vsub_def)
  have "\<not> (\<forall>i<5. \<bar>vnth (current b) i - vnth (baseline b) i\<bar> < 0.02)"
    if "\<exists>i<5. \<bar>vnth (current b) i - vnth (baseline b) i\<bar> = 0.021"
  proof -
    from that obtain i where "i < 5" "\<bar>vnth (current b) i - vnth (baseline b) i\<bar> = 0.021"
      by blast
    then have "i < 5 \<and> \<not> \<bar>vnth (current b) i - vnth (baseline b) i\<bar> < 0.02" by simp
    then show ?thesis by blast
  qed
  with iff show ?thesis by blast
qed

theorem settle_detection_witness:
  "(0::nat) < 5
   \<and> \<bar>vnth (current (blender_init 0\<lparr>current := Vec5 0.521 0.5 0.5 0.5 0.8\<rparr>)) 0
       - vnth (baseline (blender_init 0\<lparr>current := Vec5 0.521 0.5 0.5 0.5 0.8\<rparr>)) 0\<bar> = 0.021
   \<and> \<not> settled (blender_init 0\<lparr>current := Vec5 0.521 0.5 0.5 0.5 0.8\<rparr>)
   \<and> settled (blender_init 0\<lparr>current := Vec5 0.519 0.5 0.5 0.5 0.8\<rparr>)"
proof -
  let ?b = "blender_init 0\<lparr>current := Vec5 0.521 0.5 0.5 0.5 0.8\<rparr>"
  have d: "\<bar>vnth (current ?b) 0 - vnth (baseline ?b) 0\<bar> = 0.021"
    by (simp add: blender_init_def)
  then have "\<exists>i<5. \<bar>vnth (current ?b) i - vnth (baseline ?b) i\<bar> = 0.021"
    by (intro exI [of _ 0]) simp
  with settle_detection [of ?b] have "\<not> settled ?b" by blast
  moreover have "settled (blender_init 0\<lparr>current := Vec5 0.519 0.5 0.5 0.5 0.8\<rparr>)"
    by (simp add: settled_def has_settled_to_baseline_def vsub_def blender_init_def)
  ultimately show ?thesis using d by simp
qed


section \<open>Properties of the amplifier\<close>

subsection \<open>Radial amplification\<close>

lemma radial_amplify_eq:
  "radial_amplify (Vec5 v a d cx co) p =
     Vec5 (0.5 + (v - 0.5) * (1 + p * \<bar>v - 0.5\<bar>)) (0.5 + (a - 0.5) * (1 + p * \<bar>a - 0.5\<bar>))
          (0.5 + (d - 0.5) * (1 + p * \<bar>d - 0.5\<bar>)) cx co"
  by (simp add: radial_amplify_def Let_def)

lemma clip_unit: "0 \<le> clip x 0 1 \<and> clip x 0 1 \<le> 1"
  by (simp add: clip_def)

lemma clip_id: "0 \<le> x \<Longrightarrow> x \<le> 1 \<Longrightarrow> clip x 0 1 = x"
  by (simp add: clip_def)

text \<open>
  Claim C6, amended. For every vector \<open>v\<close> and every passion \<open>p\<close>, \<open>amplify_passion\<close>
  returns a vector in the unit cube; its dimensions 3 and 4 are those of the input
  clipped to [0, 1], so equal to the input where the input lies in [0, 1]; for \<open>p \<ge> 0\<close>
  each of the first three dimensions is \<open>0.5 + delta * (1 + p' * |delta|)\<close> clipped to
  [0, 1], with \<open>delta = v[i] - 0.5\<close> and \<open>p' = min(p, 3.5)\<close>; and a dimension of the first
  three that is 0.5 stays 0.5.
\<close>

theorem amplify_passion_spec:
  "vnth (amplify_passion v p) 3 = clip (vnth v 3) 0 1
   \<and> vnth (amplify_passion v p) 4 = clip (vnth v 4) 0 1
   \<and> (0 \<le> vnth v 3 \<and> vnth v 3 \<le> 1 \<longrightarrow> vnth (amplify_passion v p) 3 = vnth v 3)
   \<and> (0 \<le> vnth v 4 \<and> vnth v 4 \<le> 1 \<longrightarrow> vnth (amplify_passion v p) 4 = vnth v 4)
   \<and> in_unit (amplify_passion v p)
   \<and> (0 \<le> p \<longrightarrow> (\<forall>i<3. vnth (amplify_passion v p) i =
         clip (0.5 + (vnth v i - 0.5) * (1 + min p 3.5 * \<bar>vnth v i - 0.5\<bar>)) 0 1))
   \<and> (\<forall>i<3. vnth v i = 0.5 \<longrightarrow> vnth (amplify_passion v p) i = 0.5)"
proof (cases v)
  case (Vec5 a b c d e)
  define q where "q = max 0 (min 3.5 p)"
  define amp where "amp x = clip (0.5 + (x - 0.5) * (1 + q * \<bar>x - 0.5\<bar>)) 0 1" for x :: real
  have three: "(\<forall>i<3. P (i::nat)) = (P 0 \<and> P 1 \<and> P 2)" for P
  proof -
    have "{i::nat. i < 3} = {0, 1, 2}" by auto
    then have "(\<forall>i<3. P i) = (\<forall>i\<in>{0, 1, 2::nat}. P i)" by blast
    then show ?thesis by simp
  qed
  have res: "amplify_passion v p = Vec5 (amp a) (amp b) (amp c) (clip d 0 1) (clip e 0 1)"
    unfolding Vec5 amp_def q_def
    by (simp add: amplify_passion_def Let_def radial_amplify_eq vclip_def MAX_PASSION_def)
  have q: "0 \<le> p \<Longrightarrow> q = min p 3.5" by (simp add: q_def)
  have half: "amp 0.5 = 0.5" by (simp add: amp_def clip_def)
  have unit: "0 \<le> amp x \<and> amp x \<le> 1" for x by (simp add: amp_def clip_unit)
  have c34: "vnth (amplify_passion v p) 3 = clip (vnth v 3) 0 1"
    "vnth (amplify_passion v p) 4 = clip (vnth v 4) 0 1"
    unfolding res by (simp_all add: Vec5)
  have id34: "0 \<le> vnth v 3 \<and> vnth v 3 \<le> 1 \<longrightarrow> vnth (amplify_passion v p) 3 = vnth v 3"
    "0 \<le> vnth v 4 \<and> vnth v 4 \<le> 1 \<longrightarrow> vnth (amplify_passion v p) 4 = vnth v 4"
    unfolding c34 by (simp_all add: clip_id)
  have range: "in_unit (amplify_passion v p)"
    by (simp add: res in_unit_def unit clip_unit)
  have vad: "0 \<le> p \<longrightarrow> (\<forall>i<3. vnth (amplify_passion v p) i =
         clip (0.5 + (vnth v i - 0.5) * (1 + min p 3.5 * \<bar>vnth v i - 0.5\<bar>)) 0 1)"
  proof
    assume "0 \<le> p"
    then have "amp x = clip (0.5 + (x - 0.5) * (1 + min p 3.5 * \<bar>x - 0.5\<bar>)) 0 1" for x
      by (simp only: amp_def q)
    then show "\<forall>i<3. vnth (amplify_passion v p) i =
         clip (0.5 + (vnth v i - 0.5) * (1 + min p 3.5 * \<bar>vnth v i - 0.5\<bar>)) 0 1"
      unfolding three res by (simp add: Vec5)
  qed
  have half': "x = 0.5 \<longrightarrow> amp x = 0.5" for x using half by blast
  have neutral: "\<forall>i<3. vnth v i = 0.5 \<longrightarrow> vnth (amplify_passion v p) i = 0.5"
    unfolding three res using half' [of a] half' [of b] half' [of c] by (simp add: Vec5)
  show ?thesis
    using c34 id34 range vad neutral by blast
qed

theorem amplify_passion_spec_witness:
  "(0::real) \<le> 0.7 \<and> 0.7 \<le> (1::real) \<and> (0::real) \<le> 2.25
   \<and> vnth (amplify_passion (Vec5 0.9 0.5 0.2 0.6 0.7) 2.25) 3 = 0.6
   \<and> vnth (amplify_passion (Vec5 0.9 0.5 0.2 0.6 0.7) 2.25) 4 = 0.7
   \<and> vnth (amplify_passion (Vec5 0.9 0.5 0.2 0.6 0.7) 2.25) 0 = 1
   \<and> vnth (amplify_passion (Vec5 0.9 0.5 0.2 0.6 0.7) 2.25) 1 = 0.5
   \<and> vnth (amplify_passion (Vec5 0.9 0.5 0.2 0.6 0.7) 2.25) 2 = 0"
proof -
  let ?v = "Vec5 0.9 0.5 0.2 0.6 0.7"
  let ?r = "amplify_passion ?v 2.25"
  note t = amplify_passion_spec [of ?v "2.25"]
  have h3: "0 \<le> vnth ?v 3 \<and> vnth ?v 3 \<le> 1" and h4: "0 \<le> vnth ?v 4 \<and> vnth ?v 4 \<le> 1"
    and hp: "(0::real) \<le> 2.25" and h1: "vnth ?v 1 = 0.5"
    by simp_all
  from t h3 have "vnth ?r 3 = vnth ?v 3" by blast
  then have r3: "vnth ?r 3 = 0.6" by simp
  from t h4 have "vnth ?r 4 = vnth ?v 4" by blast
  then have r4: "vnth ?r 4 = 0.7" by simp
  from t hp have i: "\<forall>i<3. vnth ?r i =
      clip (0.5 + (vnth ?v i - 0.5) * (1 + min 2.25 3.5 * \<bar>vnth ?v i - 0.5\<bar>)) 0 1"
    by blast
  have r0: "vnth ?r 0 = 1" using i [rule_format, of 0] by (simp add: clip_def)
  have r2: "vnth ?r 2 = 0" using i [rule_format, of 2] by (simp add: clip_def)
  from t have "\<forall>i<3. vnth ?v i = 0.5 \<longrightarrow> vnth ?r i = 0.5" by blast
  then have "vnth ?v 1 = 0.5 \<longrightarrow> vnth ?r 1 = 0.5" by simp
  with h1 have r1: "vnth ?r 1 = 0.5" by blast
  show ?thesis using r0 r1 r2 r3 r4 by simp
qed

text \<open>
  Claim C6 as stated fails on a Complexity outside [0, 1]: the final clip changes it.
\<close>

theorem amplify_passion_counterexample:
  "vnth (amplify_passion (Vec5 0.5 0.5 0.5 2 0.5) 1) 3 \<noteq> vnth (Vec5 0.5 0.5 0.5 2 0.5) 3"
  by (simp add: amplify_passion_def Let_def radial_amplify_eq vclip_def clip_def)

subsection \<open>The snap toward an exemplar\<close>

lemma map_insort_key:
  "\<forall>y\<in>set (x # ys). k y = k' (g y) \<Longrightarrow>
   map g (insort_key k x ys) = insort_key k' (g x) (map g ys)"
  by (induction ys) simp_all

lemma map_sort_key:
  "\<forall>x\<in>set xs. k x = k' (g x) \<Longrightarrow> map g (sort_key k xs) = sort_key k' (map g xs)"
proof (induction xs)
  case Nil
  show ?case by simp
next
  case (Cons x xs)
  then have ih: "map g (sort_key k xs) = sort_key k' (map g xs)" by simp
  have "\<forall>y\<in>set (x # sort_key k xs). k y = k' (g y)" using Cons.prems by simp
  then have "map g (insort_key k x (sort_key k xs)) = insort_key k' (g x) (map g (sort_key k xs))"
    by (rule map_insort_key)
  then show ?case by (simp add: ih)
qed

lemma distance_row:
  "vnorm (vmul (vsub e v) dimension_weights) = weighted_distance v e"
  by (cases e; cases v)
     (simp add: vnorm_def vmul_def vsub_def dimension_weights_def power2_eq_square algebra_simps)

lemma distances_eq: "distances space v = map (weighted_distance v) space"
  by (simp add: distances_def distance_row)

lemma argsort_bound: "set (argsort ds) \<subseteq> {0..<length ds}"
proof -
  have "set (argsort ds) = snd ` set (zip ds [0..<length ds])"
    by (simp add: argsort_def)
  also have "\<dots> \<subseteq> set [0..<length ds]"
    by (auto dest: set_zip_rightD)
  finally show ?thesis by simp
qed

lemma argsort_rows:
  "map (\<lambda>i. space ! i) (argsort (map f space)) = sort_key f space"
proof -
  let ?ps = "zip (map f space) [0..<length space]"
  let ?g = "\<lambda>p. space ! snd p"
  have keys: "\<forall>p\<in>set ?ps. fst p = f (?g p)"
    by (auto simp: set_zip)
  have "map (\<lambda>i. space ! i) (argsort (map f space)) = map ?g (sort_key fst ?ps)"
    by (simp add: argsort_def)
  also have "\<dots> = sort_key f (map ?g ?ps)"
    using keys by (rule map_sort_key)
  also have "map ?g ?ps = space"
    by (rule nth_equalityI) simp_all
  finally show ?thesis .
qed


lemma weighted_distance_nonneg: "0 \<le> weighted_distance v e"
  by (cases v; cases e) simp

lemma inverse_weight_pos: "0 < 1 / (weighted_distance v e + 0.01)"
  using weighted_distance_nonneg [of v e] by simp

lemma inverse_weights_sum_pos:
  "es \<noteq> [] \<Longrightarrow> 0 < sum_list (map (\<lambda>e. 1 / (weighted_distance v e + 0.01)) es)"
proof (induction es)
  case Nil
  then show ?case by simp
next
  case (Cons e es)
  have "0 \<le> sum_list (map (\<lambda>e. 1 / (weighted_distance v e + 0.01)) es)"
    by (rule sum_list_nonneg) (auto simp: weighted_distance_nonneg add_nonneg_nonneg)
  moreover have "0 < 1 / (weighted_distance v e + 0.01)" by (rule inverse_weight_pos)
  ultimately have "0 < 1 / (weighted_distance v e + 0.01)
      + sum_list (map (\<lambda>e. 1 / (weighted_distance v e + 0.01)) es)"
    by (rule add_pos_nonneg [rotated])
  then show ?case by (simp only: list.map sum_list.Cons)
qed

lemma normalized_sum:
  fixes ws :: "real list"
  assumes "sum_list ws \<noteq> 0"
  shows "sum_list (map (\<lambda>w. w / sum_list ws) ws) = 1"
proof -
  have "sum_list (map (\<lambda>w. w / c) ws) = sum_list ws / c" for c :: real
    by (induction ws) (simp_all add: add_divide_distrib)
  then show ?thesis using assms by simp
qed

lemma inverse_distance_weights_sum:
  "es \<noteq> [] \<Longrightarrow> sum_list (inverse_distance_weights v es) = 1"
  unfolding inverse_distance_weights_def Let_def
  using inverse_weights_sum_pos [of es v] by (intro normalized_sum) simp

lemma nearest_exemplar_one:
  assumes "space \<noteq> []"
  shows "nearest_exemplar space v 1 = Inr (hd (k_nearest space v 1))"
proof -
  let ?idx = "argsort (distances space v)"
  have len: "length ?idx = length space"
    by (simp add: argsort_def distances_def)
  then have ne: "?idx \<noteq> []" using assms by auto
  have "space ! hd ?idx = hd (map (\<lambda>i. space ! i) ?idx)"
    using ne by (simp add: hd_map)
  also have "\<dots> = hd (sort_key (weighted_distance v) space)"
    by (simp only: distances_eq argsort_rows)
  also have "\<dots> = hd (k_nearest space v 1)"
    by (simp add: k_nearest_def)
  finally have "space ! hd ?idx = hd (k_nearest space v 1)" .
  moreover have "hd (slice_to 1 ?idx) = hd ?idx"
    by (simp add: slice_to_def)
  ultimately show ?thesis
    using assms by (simp add: nearest_exemplar_def Let_def)
qed

lemma nearest_exemplar_many:
  assumes "space \<noteq> []" and "1 < k"
  shows "nearest_exemplar space v k =
    Inr (weighted_sum (k_nearest space v (nat k))
           (inverse_distance_weights v (k_nearest space v (nat k))))"
proof -
  let ?ds = "distances space v"
  let ?idx = "slice_to k (argsort ?ds)"
  let ?es = "k_nearest space v (nat k)"
  let ?ws = "map (\<lambda>i. 1.0 / (?ds ! i + 0.01)) ?idx"
  have idx: "?idx = take (nat k) (argsort ?ds)"
    using assms(2) by (simp add: slice_to_def)
  have len: "length (argsort ?ds) = length space"
    by (simp add: argsort_def distances_def)
  have ne: "?idx \<noteq> []"
    using assms len unfolding idx by (cases "argsort ?ds") auto
  have rows: "map (\<lambda>i. space ! i) ?idx = ?es"
    unfolding idx k_nearest_def by (simp only: take_map [symmetric] distances_eq argsort_rows)
  have bound: "\<forall>i\<in>set ?idx. i < length space"
  proof
    fix i assume "i \<in> set ?idx"
    then have "i \<in> set (argsort ?ds)" unfolding idx by (rule in_set_takeD)
    then show "i < length space" using argsort_bound [of ?ds] by (auto simp: distances_def)
  qed
  have "?ws = map (\<lambda>i. 1 / (weighted_distance v (space ! i) + 0.01)) ?idx"
    using bound by (simp add: distances_eq)
  also have "\<dots> = map (\<lambda>e. 1 / (weighted_distance v e + 0.01)) (map (\<lambda>i. space ! i) ?idx)"
    by (simp add: comp_def)
  finally have ws: "?ws = map (\<lambda>e. 1 / (weighted_distance v e + 0.01)) ?es"
    by (simp only: rows)
  have es_ne: "?es \<noteq> []" using ne rows by auto
  have norm: "map (\<lambda>w. w / sum_list ?ws) ?ws = inverse_distance_weights v ?es"
    by (simp only: ws inverse_distance_weights_def Let_def)
  have one: "sum_list (inverse_distance_weights v ?es) = 1"
    using es_ne by (rule inverse_distance_weights_sum)
  have avg: "np_average ?es (inverse_distance_weights v ?es) =
      weighted_sum ?es (inverse_distance_weights v ?es)"
    unfolding np_average_def one weighted_sum_def
    by (cases "foldr vadd (map2 vscale ?es (inverse_distance_weights v ?es)) vzero") simp
  have "nearest_exemplar space v k =
      Inr (np_average (map (\<lambda>i. space ! i) ?idx) (map (\<lambda>w. w / sum_list ?ws) ?ws))"
    using assms ne by (simp add: nearest_exemplar_def Let_def)
  then show ?thesis by (simp only: rows norm avg)
qed


lemma k_nearest_split:
  "\<exists>rest. mset (k_nearest space v n @ rest) = mset space
     \<and> (\<forall>a\<in>set (k_nearest space v n). \<forall>b\<in>set rest.
           weighted_distance v a \<le> weighted_distance v b)"
proof -
  let ?xs = "sort_key (weighted_distance v) space"
  have "sorted (map (weighted_distance v) (take n ?xs) @ map (weighted_distance v) (drop n ?xs))"
    by (simp only: map_append [symmetric] append_take_drop_id sorted_sort_key)
  from this [unfolded sorted_append]
  have "\<forall>a\<in>set (take n ?xs). \<forall>b\<in>set (drop n ?xs).
      weighted_distance v a \<le> weighted_distance v b"
    by auto
  moreover have "mset (take n ?xs @ drop n ?xs) = mset space"
    by (simp only: append_take_drop_id mset_sort)
  ultimately show ?thesis unfolding k_nearest_def by blast
qed

lemma k_nearest_one:
  assumes "space \<noteq> []"
  shows "hd (k_nearest space v 1) \<in> set space
    \<and> (\<forall>e\<in>set space. weighted_distance v (hd (k_nearest space v 1)) \<le> weighted_distance v e)"
proof -
  let ?xs = "sort_key (weighted_distance v) space"
  have "length ?xs = length space" by simp
  then obtain x xs where xs: "?xs = x # xs" using assms by (cases ?xs) auto
  have "sorted (map (weighted_distance v) ?xs)" by (rule sorted_sort_key)
  then have le: "\<forall>e\<in>set xs. weighted_distance v x \<le> weighted_distance v e"
    unfolding xs by simp
  have set: "set space = insert x (set xs)"
    using set_sort [of "weighted_distance v" space] unfolding xs by simp
  have "hd (k_nearest space v 1) = x" by (simp add: k_nearest_def xs)
  then show ?thesis using le set by simp
qed

lemma snap_drama_zero: "max 0 (min 1 drama) = 0 \<Longrightarrow> snap_drama space v drama k = Inr v"
  by (simp add: snap_drama_def Let_def)

lemma snap_drama_refines:
  assumes "space \<noteq> []" and "1 \<le> k"
  shows "snap_drama space v drama k = Inr (snap_toward_exemplar space v drama (nat k))"
proof -
  have target: "nearest_exemplar space v k = Inr (snap_target space v (nat k))"
  proof (cases "k = 1")
    case True
    then show ?thesis using nearest_exemplar_one [OF assms(1)] by (simp add: snap_target_def)
  next
    case False
    then have k: "1 < k" using assms(2) by simp
    then have "nat k \<noteq> 1" by simp
    then show ?thesis using nearest_exemplar_many [OF assms(1) k] by (simp add: snap_target_def)
  qed
  have "(max 0 (min 1 drama) \<le> 0) = (max 0 (min 1 drama) = 0)" by auto
  then show ?thesis
    by (simp add: snap_drama_def snap_toward_exemplar_def Let_def target)
qed

text \<open>
  Claim C7. With the drama clamped to [0, 1]: when it is 0, \<open>snap_drama\<close> returns the input
  for any \<open>k\<close> and any library. Otherwise, for a library that is not empty and \<open>k \<ge> 1\<close>,
  it returns \<open>clip(input + drama * (target - input), 0, 1)\<close>, where the target for
  \<open>k = 1\<close> is the nearest exemplar, one of the library at the least weighted distance, and
  for \<open>k > 1\<close> the sum of the \<open>k\<close> nearest exemplars under the inverse-distance weights,
  which sum to 1; the \<open>k\<close> nearest are no farther than any exemplar left out.
\<close>

theorem snap_drama_spec:
  "(max 0 (min 1 drama) = 0 \<longrightarrow> snap_drama space v drama k = Inr v)
   \<and> (space \<noteq> [] \<and> 1 \<le> k \<longrightarrow>
        snap_drama space v drama k = Inr (snap_toward_exemplar space v drama (nat k)))
   \<and> (space \<noteq> [] \<longrightarrow>
        hd (k_nearest space v 1) \<in> set space
        \<and> (\<forall>e\<in>set space.
              weighted_distance v (hd (k_nearest space v 1)) \<le> weighted_distance v e))
   \<and> (\<exists>rest. mset (k_nearest space v n @ rest) = mset space
         \<and> (\<forall>a\<in>set (k_nearest space v n). \<forall>b\<in>set rest.
               weighted_distance v a \<le> weighted_distance v b))
   \<and> (space \<noteq> [] \<and> 0 < n \<longrightarrow>
        sum_list (inverse_distance_weights v (k_nearest space v n)) = 1)"
proof -
  have w: "sum_list (inverse_distance_weights v (k_nearest space v n)) = 1"
    if "space \<noteq> []" "0 < n"
  proof -
    have "length (k_nearest space v n) = min (length space) n" by (simp add: k_nearest_def)
    then have "k_nearest space v n \<noteq> []" using that by (cases space) auto
    then show ?thesis by (rule inverse_distance_weights_sum)
  qed
  show ?thesis
    using snap_drama_zero [of drama space v k] snap_drama_refines [of space k v drama]
      k_nearest_one [of space v] k_nearest_split [of space v n] w
    by blast
qed

theorem snap_drama_spec_witness:
  "[Vec5 0.9 0.5 0.5 0.5 0.5, Vec5 0.5 0.5 0.5 0.5 0.6] \<noteq> [] \<and> (1::int) \<le> 1
   \<and> snap_drama [Vec5 0.9 0.5 0.5 0.5 0.5, Vec5 0.5 0.5 0.5 0.5 0.6] (Vec5 0.5 0.5 0.5 0.5 0.5) 1 1
       = Inr (Vec5 0.5 0.5 0.5 0.5 0.6)
   \<and> max 0 (min 1 (0::real)) = 0
   \<and> snap_drama [Vec5 0.9 0.5 0.5 0.5 0.5, Vec5 0.5 0.5 0.5 0.5 0.6] (Vec5 0.5 0.5 0.5 0.5 0.5) 0 1
       = Inr (Vec5 0.5 0.5 0.5 0.5 0.5)"
proof -
  let ?e1 = "Vec5 0.9 0.5 0.5 0.5 0.5"
  let ?e2 = "Vec5 0.5 0.5 0.5 0.5 0.6"
  let ?space = "[?e1, ?e2]"
  let ?v = "Vec5 0.5 0.5 0.5 0.5 0.5"
  have h: "?space \<noteq> [] \<and> (1::int) \<le> 1" by simp
  have z: "max 0 (min 1 (0::real)) = 0" by simp
  have d1: "weighted_distance ?v ?e1 = 1.2"
    unfolding weighted_distance.simps by (rule real_sqrt_unique) (simp_all add: power2_eq_square)
  have d2: "weighted_distance ?v ?e2 = 0.03"
    unfolding weighted_distance.simps by (rule real_sqrt_unique) (simp_all add: power2_eq_square)
  have cmp: "\<not> weighted_distance ?v ?e1 \<le> weighted_distance ?v ?e2"
    by (simp only: d1 d2) simp
  have near: "k_nearest ?space ?v 1 = [?e2]"
    unfolding k_nearest_def using cmp by (simp del: weighted_distance.simps)
  from h snap_drama_spec [of 1 ?space ?v 1]
  have "snap_drama ?space ?v 1 1 = Inr (snap_toward_exemplar ?space ?v 1 (nat 1))" by blast
  moreover have "snap_toward_exemplar ?space ?v 1 (nat 1) = ?e2"
  proof -
    have n1: "nat 1 = 1" by simp
    have tgt: "snap_target ?space ?v 1 = ?e2"
      unfolding snap_target_def near by simp
    show ?thesis
      unfolding snap_toward_exemplar_def n1 tgt by (simp add: vec_defs)
  qed
  moreover from z snap_drama_spec [of 0 ?space ?v 1]
  have "snap_drama ?space ?v 0 1 = Inr ?v" by blast
  ultimately show ?thesis using h z by simp
qed


section \<open>Properties of the coordinator\<close>

subsection \<open>One request in flight\<close>

lemma decay_iter_cases:
  "decay_iter s now =
     (if slow_pending s \<and> \<not> slow_in_flight s \<and> settled (snd (tick (blender s) now))
         \<and> get_recent_context_text (context_buffer s) BASELINE_WINDOW_WORDS \<noteq> []
      then s\<lparr>blender := snd (tick (blender s) now), slow_in_flight := True,
             executor_queue := executor_queue s
               @ [Trigger (get_recent_context_text (context_buffer s) BASELINE_WINDOW_WORDS)]\<rparr>
      else s\<lparr>blender := snd (tick (blender s) now)\<rparr>)"
  by (simp add: decay_iter_def Let_def)

lemma dispatches_iff:
  "dispatches s now =
     (slow_pending s \<and> \<not> slow_in_flight s \<and> settled (snd (tick (blender s) now))
      \<and> get_recent_context_text (context_buffer s) BASELINE_WINDOW_WORDS \<noteq> [])"
  by (simp add: dispatches_def decay_iter_cases)

lemma context_text_buffer: "get_recent_context_text buf n \<noteq> [] \<Longrightarrow> buf \<noteq> []"
  by (auto simp: get_recent_context_text_def)

lemma decay_iter_single_flight: "single_flight s \<Longrightarrow> single_flight (decay_iter s now)"
  by (auto simp: single_flight_def dispatched_requests_def decay_iter_cases)

lemma burst_sentences_fields:
  "executor_queue (fst (burst_sentences space infl s sents)) = executor_queue s
   \<and> slow_in_flight (fst (burst_sentences space infl s sents)) = slow_in_flight s
   \<and> slow_pending (fst (burst_sentences space infl s sents)) = slow_pending s"
proof (induction sents arbitrary: s)
  case Nil
  show ?case by simp
next
  case (Cons p sents)
  obtain now natural where p: "p = (now, natural)" by (cases p)
  show ?case
    unfolding p by (simp add: Let_def Cons.IH split: sum.split)
qed

lemma burst_sentences_result:
  "burst_sentences space infl s sents = (s3, e) \<Longrightarrow>
   executor_queue s3 = executor_queue s \<and> slow_in_flight s3 = slow_in_flight s"
  using burst_sentences_fields [of space infl s sents] by simp

lemma receive_transcript_fields:
  "executor_queue (fst (receive_transcript space s words infl sents)) = executor_queue s
   \<and> slow_in_flight (fst (receive_transcript space s words infl sents)) = slow_in_flight s"
  by (auto simp: receive_transcript_def Let_def split: prod.split option.split
      dest: burst_sentences_result)

lemma receive_transcript_single_flight:
  "single_flight s \<Longrightarrow> single_flight (fst (receive_transcript space s words infl sents))"
  by (simp add: single_flight_def dispatched_requests_def receive_transcript_fields)

lemma startup_warm_fields:
  "executor_queue (startup_warm_baseline s avail reply now now') = executor_queue s
   \<and> slow_in_flight (startup_warm_baseline s avail reply now now') = slow_in_flight s"
  by (simp add: startup_warm_baseline_def Let_def split: option.split)

lemma trigger_fields:
  "executor_queue (trigger_slow_baseline s avail reply now now') = executor_queue s
   \<and> \<not> slow_in_flight (trigger_slow_baseline s avail reply now now')
   \<and> \<not> slow_pending (trigger_slow_baseline s avail reply now now')"
  by (simp add: trigger_slow_baseline_def Let_def split: option.split)

lemma step_single_flight: "single_flight s \<Longrightarrow> single_flight (step space avail s ev)"
proof (cases ev)
  case (DecayIter now)
  assume "single_flight s"
  then show ?thesis by (simp add: DecayIter decay_iter_single_flight)
next
  case (Transcript words infl sents)
  assume "single_flight s"
  then show ?thesis by (simp add: Transcript receive_transcript_single_flight)
next
  case (JobDone reply now now')
  assume inv: "single_flight s"
  show ?thesis
  proof (cases "executor_queue s")
    case Nil
    then show ?thesis using inv by (simp add: JobDone)
  next
    case (Cons j q)
    show ?thesis
    proof (cases j)
      case (Warmup ctx)
      then show ?thesis
        using inv Cons
        by (simp add: JobDone single_flight_def dispatched_requests_def startup_warm_fields)
    next
      case (Trigger ctx)
      then show ?thesis
        using inv Cons
        by (simp add: JobDone single_flight_def dispatched_requests_def trigger_fields)
    qed
  qed
qed

lemma run_server_single_flight:
  "single_flight s \<Longrightarrow> single_flight (run_server space avail s evs)"
  by (induction evs arbitrary: s) (simp_all add: step_single_flight)

lemma server_start_single_flight: "single_flight (server_start t0)"
  by (simp add: single_flight_def dispatched_requests_def server_start_def)

lemma list_all_tl: "list_all P xs \<Longrightarrow> list_all P (tl xs)"
  by (cases xs) simp_all

lemma decay_iter_warmup_first: "warmup_first s \<Longrightarrow> warmup_first (decay_iter s now)"
  by (cases "executor_queue s")
     (simp_all add: warmup_first_def in_flight_requests_def decay_iter_cases)

lemma step_warmup_first: "warmup_first s \<Longrightarrow> warmup_first (step space avail s ev)"
proof (cases ev)
  case (DecayIter now)
  assume "warmup_first s"
  then show ?thesis by (simp add: DecayIter decay_iter_warmup_first)
next
  case (Transcript words infl sents)
  assume "warmup_first s"
  then show ?thesis
    by (simp add: Transcript warmup_first_def in_flight_requests_def receive_transcript_fields)
next
  case (JobDone reply now now')
  assume inv: "warmup_first s"
  show ?thesis
  proof (cases "executor_queue s")
    case Nil
    then show ?thesis using inv by (simp add: JobDone)
  next
    case (Cons j q)
    from inv Cons have "list_all is_trigger (tl q)"
      by (simp add: warmup_first_def in_flight_requests_def list_all_tl)
    then show ?thesis
      using Cons
      by (cases j)
         (simp_all add: JobDone warmup_first_def in_flight_requests_def startup_warm_fields
            trigger_fields)
  qed
qed

lemma run_server_warmup_first:
  "warmup_first s \<Longrightarrow> warmup_first (run_server space avail s evs)"
  by (induction evs arbitrary: s) (simp_all add: step_warmup_first)

lemma server_start_warmup_first: "warmup_first (server_start t0)"
  by (simp add: warmup_first_def in_flight_requests_def server_start_def)

lemma filter_all: "list_all P xs \<Longrightarrow> filter P xs = xs"
  by (induction xs) simp_all

lemma two_in_flight:
  assumes "single_flight s" and "warmup_first s"
  shows "length (in_flight_requests s) \<le> 2"
proof (cases "executor_queue s")
  case Nil
  then show ?thesis by (simp add: in_flight_requests_def)
next
  case (Cons j q)
  from assms(2) Cons have "filter is_trigger q = q"
    by (simp add: warmup_first_def in_flight_requests_def filter_all)
  moreover from assms(1) Cons have "length (filter is_trigger (j # q)) \<le> 1"
    by (simp add: single_flight_def dispatched_requests_def)
  ultimately have "length q \<le> 1" by (cases "is_trigger j") simp_all
  then show ?thesis using Cons by (simp add: in_flight_requests_def)
qed

text \<open>
  A run on which the decay loop dispatches while the warm-up is still in flight: a
  transcript of one word arrives at time 1, with influence 1 and a reading equal to the
  resting point, which is also the only exemplar; the decay loop runs at 1.5.
\<close>

lemma overlap_run_state:
  "run_server [Vec5 0.5 0.5 0.5 0.5 0.8] True (server_start 0)
       [Transcript [''hello''] (Some 1) [(1, Vec5 0.5 0.5 0.5 0.5 0.8)]]
   = (server_start 0)\<lparr>blender := apply_burst (blender_init 0) 1 (Vec5 0.5 0.5 0.5 0.5 0.8) (Some 1),
      context_buffer := [''hello''], last_vibe := [0.5, 0.5, 0.5, 0.5, 0.8],
      transcript_count := 1, slow_pending := True\<rparr>"
proof -
  let ?v = "Vec5 0.5 0.5 0.5 0.5 0.8"
  have amp: "amplify_passion ?v PASSION = ?v"
    by (simp add: amplify_passion_def radial_amplify_def Let_def vclip_def clip_def)
  have snap: "snap_drama [?v] ?v DRAMA 1 = Inr ?v"
    by (simp add: snap_drama_def nearest_exemplar_def Let_def slice_to_def argsort_def
        distances_def DRAMA_def vec_defs)
  show ?thesis
    using amp snap
    by (simp add: receive_transcript_def Let_def deque_extend_def
        apply_burst_current server_start_def)
qed

lemma overlap_run_dispatches:
  "dispatches (run_server [Vec5 0.5 0.5 0.5 0.5 0.8] True (server_start 0)
       [Transcript [''hello''] (Some 1) [(1, Vec5 0.5 0.5 0.5 0.5 0.8)]]) 1.5"
proof -
  have b1: "baseline (apply_burst (blender_init 0) 1 (Vec5 0.5 0.5 0.5 0.5 0.8) (Some 1))
      = Vec5 0.5 0.5 0.5 0.5 0.8"
    by (simp add: apply_burst_def Let_def blender_init_def vec_defs)
  show ?thesis
    unfolding overlap_run_state dispatches_iff using b1
    by (simp add: server_start_def tick_def apply_burst_hold apply_burst_current
        settled_def has_settled_to_baseline_def vsub_def get_recent_context_text_def
        BASELINE_WINDOW_WORDS_def)
qed

lemma overlap_run_before:
  "executor_queue (run_server [Vec5 0.5 0.5 0.5 0.5 0.8] True (server_start 0)
       [Transcript [''hello''] (Some 1) [(1, Vec5 0.5 0.5 0.5 0.5 0.8)]])
   = [Warmup ''Say hello to Reachy.'']"
  unfolding overlap_run_state by (simp add: server_start_def)

lemma overlap_run_context:
  "get_recent_context_text (context_buffer (run_server [Vec5 0.5 0.5 0.5 0.5 0.8] True
       (server_start 0) [Transcript [''hello''] (Some 1) [(1, Vec5 0.5 0.5 0.5 0.5 0.8)]]))
     BASELINE_WINDOW_WORDS = ''hello''"
  unfolding overlap_run_state
  by (simp add: server_start_def get_recent_context_text_def BASELINE_WINDOW_WORDS_def)

lemma overlap_run_after:
  "executor_queue (run_server [Vec5 0.5 0.5 0.5 0.5 0.8] True (server_start 0)
       [Transcript [''hello''] (Some 1) [(1, Vec5 0.5 0.5 0.5 0.5 0.8)], DecayIter 1.5])
   = [Warmup ''Say hello to Reachy.'', Trigger ''hello'']"
proof -
  let ?s1 = "run_server [Vec5 0.5 0.5 0.5 0.5 0.8] True (server_start 0)
       [Transcript [''hello''] (Some 1) [(1, Vec5 0.5 0.5 0.5 0.5 0.8)]]"
  have "run_server [Vec5 0.5 0.5 0.5 0.5 0.8] True (server_start 0)
       [Transcript [''hello''] (Some 1) [(1, Vec5 0.5 0.5 0.5 0.5 0.8)], DecayIter 1.5]
       = decay_iter ?s1 1.5" by simp
  moreover have "executor_queue (decay_iter ?s1 1.5) = executor_queue ?s1
      @ [Trigger (get_recent_context_text (context_buffer ?s1) BASELINE_WINDOW_WORDS)]"
    using overlap_run_dispatches by (simp only: dispatches_iff decay_iter_cases) simp
  ultimately show ?thesis by (simp only: overlap_run_before overlap_run_context) simp
qed

text \<open>
  Claim C5, amended. In every state the server reaches from start-up, under any
  interleaving of decay-loop iterations, transcript requests and resolutions of the
  executor's oldest request, the decay loop has at most one request of its own in flight,
  and \<open>slow_in_flight\<close> is set exactly when it has one. The warm-up request of start-up is
  made outside the two flags, so in all at most two requests are in flight, and only the
  oldest of them can be the warm-up. An iteration of the decay loop dispatches only when
  the pending flag is set, the in-flight flag is not, the state after the tick is settled
  and the context buffer is not empty; a dispatch sets the in-flight flag in the same step
  and adds exactly one request; and while the flag is set, in particular right after a
  dispatch, no iteration dispatches.
\<close>

theorem requests_in_flight:
  "length (dispatched_requests (run_server space avail (server_start t0) evs)) \<le> 1
   \<and> slow_in_flight (run_server space avail (server_start t0) evs)
       = (dispatched_requests (run_server space avail (server_start t0) evs) \<noteq> [])
   \<and> length (in_flight_requests (run_server space avail (server_start t0) evs)) \<le> 2
   \<and> list_all is_trigger (tl (in_flight_requests (run_server space avail (server_start t0) evs)))
   \<and> (dispatches s now \<longrightarrow>
        slow_pending s \<and> \<not> slow_in_flight s \<and> settled (snd (tick (blender s) now))
        \<and> context_buffer s \<noteq> [])
   \<and> (dispatches s now \<longrightarrow>
        slow_in_flight (decay_iter s now)
        \<and> in_flight_requests (decay_iter s now) = in_flight_requests s
             @ [Trigger (get_recent_context_text (context_buffer s) BASELINE_WINDOW_WORDS)])
   \<and> (slow_in_flight s \<longrightarrow> \<not> dispatches s now)
   \<and> (dispatches s now \<longrightarrow> \<not> dispatches (decay_iter s now) now2)"
proof -
  have inv: "single_flight (run_server space avail (server_start t0) evs)"
    by (rule run_server_single_flight [OF server_start_single_flight])
  have wf: "warmup_first (run_server space avail (server_start t0) evs)"
    by (rule run_server_warmup_first [OF server_start_warmup_first])
  note two = two_in_flight [OF inv wf]
  have guard: "dispatches s now \<longrightarrow>
        slow_pending s \<and> \<not> slow_in_flight s \<and> settled (snd (tick (blender s) now))
        \<and> context_buffer s \<noteq> []"
    by (auto simp: dispatches_iff dest: context_text_buffer)
  have mark: "dispatches s now \<longrightarrow>
        slow_in_flight (decay_iter s now)
        \<and> in_flight_requests (decay_iter s now) = in_flight_requests s
             @ [Trigger (get_recent_context_text (context_buffer s) BASELINE_WINDOW_WORDS)]"
    by (simp add: dispatches_iff decay_iter_cases in_flight_requests_def)
  have block: "slow_in_flight s' \<longrightarrow> \<not> dispatches s' now'" for s' now'
    by (simp add: dispatches_iff)
  show ?thesis
    using inv wf two guard mark block [of s now] block [of "decay_iter s now" now2]
    unfolding single_flight_def warmup_first_def by blast
qed

theorem requests_in_flight_witness:
  "dispatches (run_server [Vec5 0.5 0.5 0.5 0.5 0.8] True (server_start 0)
       [Transcript [''hello''] (Some 1) [(1, Vec5 0.5 0.5 0.5 0.5 0.8)]]) 1.5
   \<and> slow_in_flight (run_server [Vec5 0.5 0.5 0.5 0.5 0.8] True (server_start 0)
       [Transcript [''hello''] (Some 1) [(1, Vec5 0.5 0.5 0.5 0.5 0.8)], DecayIter 1.5])
   \<and> \<not> dispatches (run_server [Vec5 0.5 0.5 0.5 0.5 0.8] True (server_start 0)
       [Transcript [''hello''] (Some 1) [(1, Vec5 0.5 0.5 0.5 0.5 0.8)], DecayIter 1.5]) 1.6
   \<and> dispatched_requests (run_server [Vec5 0.5 0.5 0.5 0.5 0.8] True (server_start 0)
       [Transcript [''hello''] (Some 1) [(1, Vec5 0.5 0.5 0.5 0.5 0.8)], DecayIter 1.5,
        DecayIter 1.6]) = [Trigger ''hello'']
   \<and> in_flight_requests (run_server [Vec5 0.5 0.5 0.5 0.5 0.8] True (server_start 0)
       [Transcript [''hello''] (Some 1) [(1, Vec5 0.5 0.5 0.5 0.5 0.8)], DecayIter 1.5,
        DecayIter 1.6]) = [Warmup ''Say hello to Reachy.'', Trigger ''hello'']"
proof -
  let ?space = "[Vec5 0.5 0.5 0.5 0.5 0.8]"
  let ?v = "Vec5 0.5 0.5 0.5 0.5 0.8"
  let ?s1 = "run_server ?space True (server_start 0) [Transcript [''hello''] (Some 1) [(1, ?v)]]"
  note d = overlap_run_dispatches
  have run2: "run_server ?space True (server_start 0)
      [Transcript [''hello''] (Some 1) [(1, ?v)], DecayIter 1.5] = decay_iter ?s1 1.5"
    by simp
  have run3: "run_server ?space True (server_start 0)
      [Transcript [''hello''] (Some 1) [(1, ?v)], DecayIter 1.5, DecayIter 1.6]
      = decay_iter (decay_iter ?s1 1.5) 1.6"
    by simp
  note t = requests_in_flight [where s = ?s1 and now = "1.5" and ?now2.0 = "1.6"]
  from d t have m: "slow_in_flight (decay_iter ?s1 1.5)"
    and q: "in_flight_requests (decay_iter ?s1 1.5) = in_flight_requests ?s1
             @ [Trigger (get_recent_context_text (context_buffer ?s1) BASELINE_WINDOW_WORDS)]"
    and n: "\<not> dispatches (decay_iter ?s1 1.5) 1.6"
    by blast+
  have q1: "executor_queue (decay_iter ?s1 1.5) = [Warmup ''Say hello to Reachy.'', Trigger ''hello'']"
    using q by (simp only: in_flight_requests_def overlap_run_before overlap_run_context) simp
  have q2: "executor_queue (decay_iter (decay_iter ?s1 1.5) 1.6) = executor_queue (decay_iter ?s1 1.5)"
    using n by (simp add: dispatches_def)
  show ?thesis
    unfolding run2 run3 using d m n q1 q2
    by (simp add: in_flight_requests_def dispatched_requests_def)
qed

text \<open>
  Claim C5 as stated fails for the warm-up request: on the run above the decay loop
  dispatches while the warm-up request is in flight, and two requests to the slow
  estimator are then in flight together.
\<close>

theorem warmup_overlap_counterexample:
  "in_flight_requests (run_server [Vec5 0.5 0.5 0.5 0.5 0.8] True (server_start 0)
       [Transcript [''hello''] (Some 1) [(1, Vec5 0.5 0.5 0.5 0.5 0.8)]])
     = [Warmup ''Say hello to Reachy.'']
   \<and> dispatches (run_server [Vec5 0.5 0.5 0.5 0.5 0.8] True (server_start 0)
       [Transcript [''hello''] (Some 1) [(1, Vec5 0.5 0.5 0.5 0.5 0.8)]]) 1.5
   \<and> in_flight_requests (run_server [Vec5 0.5 0.5 0.5 0.5 0.8] True (server_start 0)
       [Transcript [''hello''] (Some 1) [(1, Vec5 0.5 0.5 0.5 0.5 0.8)], DecayIter 1.5])
     = [Warmup ''Say hello to Reachy.'', Trigger ''hello'']
   \<and> length (in_flight_requests (run_server [Vec5 0.5 0.5 0.5 0.5 0.8] True (server_start 0)
       [Transcript [''hello''] (Some 1) [(1, Vec5 0.5 0.5 0.5 0.5 0.8)], DecayIter 1.5])) = 2"
  using overlap_run_dispatches
  by (simp only: in_flight_requests_def overlap_run_before overlap_run_after) simp

subsection \<open>Failure of the slow estimator\<close>








end
